theory Spec2Isabelle
  imports Complex_Main
begin

section \<open>Exceptions\<close>

text \<open>
  Every \<^verbatim>\<open>raise\<close> of the module, and every exception the interpreter or the
  \<^verbatim>\<open>decimal\<close> library raises underneath it, is a value of \<open>pyerr\<close>; a call
  returns \<open>pyerr + 'a\<close> with \<open>Inl\<close> for the exception.  \<open>ValidationError\<close> is the
  class imported from \<^verbatim>\<open>app.exceptions\<close>, \<open>ValueError\<close> and \<open>TypeError\<close> are the
  built-in ones, each with its message.  The last three are the signals that the default
  decimal context traps.  Messages produced by the interpreter itself are abbreviated to the
  part of their wording that does not change between interpreter versions.
\<close>

datatype pyerr =
    ValidationError string
  | ValueError string
  | TypeError string
  | InvalidOperation
  | DivisionByZero
  | Overflow

section \<open>Strings\<close>

text \<open>
  Names are Python strings over the code points below 256, one \<open>char\<close> per code point.
  On these, \<^verbatim>\<open>str.lower()\<close> maps \<^verbatim>\<open>A\<close>..\<^verbatim>\<open>Z\<close> (65..90) and the
  capital letters 192..222 of Latin-1, the multiplication sign 215 apart, to the character 32
  places further on, and leaves every other character alone.
\<close>

definition lower_char :: "char \<Rightarrow> char" where
  "lower_char c =
     (let n = (of_char c :: nat)
      in if (65 \<le> n \<and> n \<le> 90) \<or> (192 \<le> n \<and> n \<le> 222 \<and> n \<noteq> 215)
         then char_of (n + 32) else c)"

definition lower :: "string \<Rightarrow> string" where
  "lower s = map lower_char s"

section \<open>Classes and objects\<close>

text \<open>
  A class is its name, its base class, the namespace of its body and its traits;
  \<open>PyObject\<close> is the root \<^verbatim>\<open>object\<close>.  A method of the namespace records whether it
  carries \<^verbatim>\<open>@abstractmethod\<close>.  Method bodies, metaclasses and the registry of
  \<^verbatim>\<open>ABCMeta\<close> are code and state outside the module; what the module observes of them
  is recorded in the traits of a class, as the outcome observed:
  \<^item> \<open>abc_verdict\<close>: the answer of the registry and the subclass hooks of
    \<^verbatim>\<open>ABCMeta\<close> when the class is checked against \<^verbatim>\<open>Operation\<close> and does not
    inherit from it (true after \<^verbatim>\<open>Operation.register\<close>), or the exception a hook raises;
  \<^item> \<open>truth_value\<close>: \<^verbatim>\<open>bool(cls)\<close>, true unless the metaclass defines
    \<^verbatim>\<open>__bool__\<close> or \<^verbatim>\<open>__len__\<close>, or the exception that method raises;
  \<^item> \<open>constructor\<close>: what the call of the class with no argument does.  \<open>ObjectNew\<close>
    is a construction by \<^verbatim>\<open>object.__new__\<close> followed by \<^verbatim>\<open>__init__\<close>, with the
    exception that \<^verbatim>\<open>__init__\<close> raises when so called, if any (a missing argument is
    one); \<open>Custom\<close> is a \<^verbatim>\<open>__new__\<close> or a metaclass \<^verbatim>\<open>__call__\<close> that raises
    or hands back an object of its own choice, known by its identity.
  Classes have one base, as every class of the module and of its tests has, and the names of
  a namespace are distinct, as the keys of a Python namespace are.
\<close>

datatype pymethod = Method (is_abstract: bool)

datatype ctor =
    ObjectNew "pyerr option"
  | Custom "pyerr + nat"

datatype traits =
  Traits (abc_verdict: "pyerr + bool") (truth_value: "pyerr + bool") (constructor: ctor)

text \<open>The traits of a class that customises nothing.\<close>

definition ordinary :: traits where
  "ordinary = Traits (Inr False) (Inr True) (ObjectNew None)"

datatype pyclass =
    PyObject
  | PyClass string pyclass "(string \<times> pymethod) list" traits

text \<open>
  The objects that reach the module: classes, the instances \<^verbatim>\<open>object.__new__\<close> makes,
  the objects a custom constructor hands back, and a few values that are not classes.
\<close>

datatype pyobj =
    ClassObj pyclass
  | InstanceObj pyclass
  | OtherObj nat
  | StrObj string
  | IntObj int
  | NoneObj

fun cname :: "pyclass \<Rightarrow> string" where
  "cname PyObject = ''object''"
| "cname (PyClass n b ms t) = n"

fun class_traits :: "pyclass \<Rightarrow> traits" where
  "class_traits PyObject = ordinary"
| "class_traits (PyClass n b ms t) = t"

text \<open>\<^verbatim>\<open>abc.ABC\<close>, whose metaclass \<^verbatim>\<open>ABCMeta\<close> every class derived from it inherits.\<close>

definition ABC :: pyclass where
  "ABC = PyClass ''ABC'' PyObject [] ordinary"

definition Operation :: pyclass where
  "Operation = PyClass ''Operation'' ABC
     [(''execute'', Method True),
      (''validate_operands'', Method False),
      (''__str__'', Method False)] ordinary"

definition Addition :: pyclass where
  "Addition = PyClass ''Addition'' Operation [(''execute'', Method False)] ordinary"

definition Subtraction :: pyclass where
  "Subtraction = PyClass ''Subtraction'' Operation [(''execute'', Method False)] ordinary"

definition Multiplication :: pyclass where
  "Multiplication = PyClass ''Multiplication'' Operation [(''execute'', Method False)] ordinary"

definition Division :: pyclass where
  "Division = PyClass ''Division'' Operation
     [(''validate_operands'', Method False), (''execute'', Method False)] ordinary"

text \<open>The method resolution order of a class: the class, then the order of its base.\<close>

fun mro :: "pyclass \<Rightarrow> pyclass list" where
  "mro PyObject = [PyObject]"
| "mro (PyClass n b ms t) = PyClass n b ms t # mro b"

definition inherits :: "pyclass \<Rightarrow> pyclass \<Rightarrow> bool" where
  "inherits k c \<longleftrightarrow> c \<in> set (mro k)"

fun uses_ABCMeta :: "pyclass \<Rightarrow> bool" where
  "uses_ABCMeta PyObject = False"
| "uses_ABCMeta (PyClass n b ms t) = (PyClass n b ms t = ABC \<or> uses_ABCMeta b)"

text \<open>Attribute lookup on a class: the first namespace along the resolution order.\<close>

fun getattr_cls :: "pyclass \<Rightarrow> string \<Rightarrow> pymethod option" where
  "getattr_cls PyObject a = None"
| "getattr_cls (PyClass n b ms t) a =
     (case map_of ms a of Some m \<Rightarrow> Some m | None \<Rightarrow> getattr_cls b a)"

definition still_abstract :: "pyclass \<Rightarrow> string \<Rightarrow> bool" where
  "still_abstract c a = (case getattr_cls c a of Some m \<Rightarrow> is_abstract m | None \<Rightarrow> False)"

text \<open>
  \<^verbatim>\<open>__abstractmethods__\<close>, as \<^verbatim>\<open>ABCMeta\<close> computes it when the class is created:
  the abstract names of the own namespace, and the abstract names of the base that still
  resolve to an abstract method.  It is a set in Python; only its members matter.
\<close>

fun abstractmethods :: "pyclass \<Rightarrow> string list" where
  "abstractmethods PyObject = []"
| "abstractmethods (PyClass n b ms t) =
     (if uses_ABCMeta (PyClass n b ms t)
      then map fst (filter (\<lambda>(a, m). is_abstract m) ms)
           @ filter (still_abstract (PyClass n b ms t)) (abstractmethods b)
      else [])"

text \<open>
  \<^verbatim>\<open>issubclass(x, c)\<close>.  An \<open>x\<close> that is not a class raises a \<^verbatim>\<open>TypeError\<close>.  A
  class that has \<open>c\<close> in its resolution order is a subclass.  Otherwise, against the abstract
  base class \<^verbatim>\<open>Operation\<close>, the answer is that of \<^verbatim>\<open>ABCMeta.__subclasscheck__\<close>,
  which consults its registry and the subclass hooks; against any other class of the model it
  is false.
\<close>

definition issubclass :: "pyobj \<Rightarrow> pyclass \<Rightarrow> pyerr + bool" where
  "issubclass x c =
     (case x of
        ClassObj k \<Rightarrow>
          if c \<in> set (mro k) then Inr True
          else if c = Operation then abc_verdict (class_traits k)
          else Inr False
      | _ \<Rightarrow> Inl (TypeError ''issubclass() arg 1 must be a class''))"

text \<open>
  The call \<^verbatim>\<open>operation_class()\<close>.  A custom constructor decides by itself.  Otherwise
  \<^verbatim>\<open>object.__new__\<close> refuses a class that has abstract methods left (the message is cut
  after the class name, where the wording of the interpreter versions parts), and
  \<^verbatim>\<open>__init__\<close> is then called with no argument.
\<close>

definition instantiate :: "pyclass \<Rightarrow> pyerr + pyobj" where
  "instantiate c =
     (case constructor (class_traits c) of
        Custom r \<Rightarrow> (case r of Inl e \<Rightarrow> Inl e | Inr i \<Rightarrow> Inr (OtherObj i))
      | ObjectNew raised \<Rightarrow>
          if abstractmethods c \<noteq> []
          then Inl (TypeError (''Can't instantiate abstract class '' @ cname c))
          else (case raised of Some e \<Rightarrow> Inl e | None \<Rightarrow> Inr (InstanceObj c)))"

section \<open>The operation factory\<close>

text \<open>
  The class attribute \<^verbatim>\<open>OperationFactory._operations\<close> is the only state of the
  factory.  Both class methods take the state and return their outcome with the state after
  the call.  The registry holds classes: where \<^verbatim>\<open>issubclass\<close> has returned, its
  argument is a class, so the last case of \<open>register_operation\<close> is never taken.
\<close>

record factory =
  operations :: "string \<rightharpoonup> pyclass"

definition OperationFactory :: factory where
  "OperationFactory =
     \<lparr>operations =
        [''add'' \<mapsto> Addition,
         ''subtract'' \<mapsto> Subtraction,
         ''multiply'' \<mapsto> Multiplication,
         ''divide'' \<mapsto> Division]\<rparr>"

definition register_operation :: "factory \<Rightarrow> string \<Rightarrow> pyobj \<Rightarrow> (pyerr + unit) \<times> factory" where
  "register_operation f name operation_class =
     (case issubclass operation_class Operation of
        Inl e \<Rightarrow> (Inl e, f)
      | Inr False \<Rightarrow> (Inl (TypeError ''Operation class must inherit from Operation''), f)
      | Inr True \<Rightarrow>
          (case operation_class of
             ClassObj c \<Rightarrow> (Inr (), f\<lparr>operations := (operations f)(lower name \<mapsto> c)\<rparr>)
           | _ \<Rightarrow> (Inl (TypeError ''issubclass() arg 1 must be a class''), f)))"

text \<open>
  \<^verbatim>\<open>dict.get\<close> gives \<^verbatim>\<open>None\<close> for a missing key, which is false; for a class that
  is found, \<^verbatim>\<open>not operation_class\<close> asks the class for its truth value, and a class
  that is false is reported as unknown like a missing one.
\<close>

definition create_operation :: "factory \<Rightarrow> string \<Rightarrow> (pyerr + pyobj) \<times> factory" where
  "create_operation f operation_type =
     (case operations f (lower operation_type) of
        None \<Rightarrow> (Inl (ValueError (''Unknown operation: '' @ operation_type)), f)
      | Some operation_class \<Rightarrow>
          (case truth_value (class_traits operation_class) of
             Inl e \<Rightarrow> (Inl e, f)
           | Inr t \<Rightarrow>
               if \<not> t then (Inl (ValueError (''Unknown operation: '' @ operation_type)), f)
               else (instantiate operation_class, f)))"

subsection \<open>Properties of classes and registries\<close>

text \<open>A class is true as an object.\<close>

definition true_class :: "pyclass \<Rightarrow> bool" where
  "true_class c \<longleftrightarrow> truth_value (class_traits c) = Inr True"

text \<open>
  The call of a class with no argument makes an instance: no abstract method is left, the
  construction is that of \<^verbatim>\<open>object.__new__\<close>, and \<^verbatim>\<open>__init__\<close> returns.
\<close>

definition constructs :: "pyclass \<Rightarrow> bool" where
  "constructs c \<longleftrightarrow> abstractmethods c = [] \<and> constructor (class_traits c) = ObjectNew None"

definition is_class :: "pyobj \<Rightarrow> bool" where
  "is_class x = (case x of ClassObj k \<Rightarrow> True | _ \<Rightarrow> False)"


text \<open>
  Conformance in the words of the specification: the constructor produces instances that
  have the capabilities of an operation, that is, a concrete \<^verbatim>\<open>validate_operands\<close>,
  \<^verbatim>\<open>execute\<close> and \<^verbatim>\<open>__str__\<close>.  It is not what \<open>register_operation\<close> checks.
\<close>

definition implements :: "pyclass \<Rightarrow> string \<Rightarrow> bool" where
  "implements c a = (case getattr_cls c a of Some m \<Rightarrow> \<not> is_abstract m | None \<Rightarrow> False)"

definition spec_conforms :: "pyobj \<Rightarrow> bool" where
  "spec_conforms x =
     (case x of
        ClassObj c \<Rightarrow>
          instantiate c = Inr (InstanceObj c) \<and> implements c ''validate_operands''
          \<and> implements c ''execute'' \<and> implements c ''__str__''
      | _ \<Rightarrow> False)"

subsection \<open>Classes that a caller may define\<close>

text \<open>
  \<open>Plain\<close> inherits from \<^verbatim>\<open>object\<close> alone and \<open>ModVariant\<close> is a complete
  operation, as the two classes of the unit tests are.  \<open>Duck\<close> has the three methods of
  an operation and does not inherit from \<^verbatim>\<open>Operation\<close>.  \<open>Partial\<close> inherits
  from \<^verbatim>\<open>Operation\<close> and implements nothing.  \<open>Falsy\<close> is a complete
  operation whose metaclass, derived from \<^verbatim>\<open>ABCMeta\<close>, has a \<^verbatim>\<open>__bool__\<close> that
  returns false.  \<open>Scaled\<close> is a complete operation whose \<^verbatim>\<open>__init__\<close> raises when no
  scale is given.  \<open>Shared\<close> is a complete operation whose \<^verbatim>\<open>__new__\<close> hands back an
  object made before.  \<open>Registered\<close> does not inherit from \<^verbatim>\<open>Operation\<close> and has
  been passed to \<^verbatim>\<open>Operation.register\<close>.
\<close>

definition Plain :: pyclass where
  "Plain = PyClass ''Plain'' PyObject [] ordinary"

definition ModVariant :: pyclass where
  "ModVariant = PyClass ''ModVariant'' Operation [(''execute'', Method False)] ordinary"

definition Duck :: pyclass where
  "Duck = PyClass ''Duck'' PyObject
     [(''validate_operands'', Method False),
      (''execute'', Method False),
      (''__str__'', Method False)] ordinary"

definition Partial :: pyclass where
  "Partial = PyClass ''Partial'' Operation [] ordinary"

definition Falsy :: pyclass where
  "Falsy = PyClass ''Falsy'' Operation [(''execute'', Method False)]
     (Traits (Inr False) (Inr False) (ObjectNew None))"

definition Scaled :: pyclass where
  "Scaled = PyClass ''Scaled'' Operation
     [(''__init__'', Method False), (''execute'', Method False)]
     (Traits (Inr False) (Inr True) (ObjectNew (Some (ValueError ''a scale is required''))))"

definition Shared :: pyclass where
  "Shared = PyClass ''Shared'' Operation
     [(''__new__'', Method False), (''execute'', Method False)]
     (Traits (Inr False) (Inr True) (Custom (Inr 0)))"

definition Registered :: pyclass where
  "Registered = PyClass ''Registered'' PyObject [(''execute'', Method False)]
     (Traits (Inr True) (Inr True) (ObjectNew None))"

section \<open>Operands and the arithmetic of the module\<close>

text \<open>
  Python finds \<^verbatim>\<open>a + b\<close>, \<^verbatim>\<open>a - b\<close>, \<^verbatim>\<open>a * b\<close>, \<^verbatim>\<open>a / b\<close> and
  \<^verbatim>\<open>b == 0\<close> in the type of the operands.  A number type is therefore the record of
  these five operations, each of which may raise, and every function of the module takes the
  number type of its operands as its first argument.  The standalone functions are annotated
  for \<^verbatim>\<open>int\<close> and \<^verbatim>\<open>float\<close> and the classes for \<^verbatim>\<open>Decimal\<close>; nothing in
  their bodies depends on that.
\<close>

record 'v number_type =
  py_add :: "'v \<Rightarrow> 'v \<Rightarrow> pyerr + 'v"
  py_sub :: "'v \<Rightarrow> 'v \<Rightarrow> pyerr + 'v"
  py_mul :: "'v \<Rightarrow> 'v \<Rightarrow> pyerr + 'v"
  py_truediv :: "'v \<Rightarrow> 'v \<Rightarrow> pyerr + 'v"
  py_eq_zero :: "'v \<Rightarrow> pyerr + bool"

subsection \<open>The standalone functions\<close>

definition add :: "'v number_type \<Rightarrow> 'v \<Rightarrow> 'v \<Rightarrow> pyerr + 'v" where
  "add T a b = py_add T a b"

definition subtract :: "'v number_type \<Rightarrow> 'v \<Rightarrow> 'v \<Rightarrow> pyerr + 'v" where
  "subtract T a b = py_sub T a b"

definition multiply :: "'v number_type \<Rightarrow> 'v \<Rightarrow> 'v \<Rightarrow> pyerr + 'v" where
  "multiply T a b = py_mul T a b"

text \<open>The function \<^verbatim>\<open>divide\<close> of the module; the name alone is taken in HOL.\<close>

definition divide_fn :: "'v number_type \<Rightarrow> 'v \<Rightarrow> 'v \<Rightarrow> pyerr + 'v" where
  "divide_fn T a b =
     (case py_eq_zero T b of
        Inl e \<Rightarrow> Inl e
      | Inr z \<Rightarrow> if z then Inl (ValueError ''Cannot divide by zero!'') else py_truediv T a b)"

subsection \<open>The methods of the operation classes\<close>

text \<open>
  \<^verbatim>\<open>Operation.validate_operands\<close> is the empty hook that \<^verbatim>\<open>Addition\<close>,
  \<^verbatim>\<open>Subtraction\<close> and \<^verbatim>\<open>Multiplication\<close> inherit; \<^verbatim>\<open>Division\<close> overrides
  it, calling the inherited one first.  Every \<^verbatim>\<open>execute\<close> validates and then computes.
\<close>

definition Operation_validate_operands :: "'v \<Rightarrow> 'v \<Rightarrow> pyerr + unit" where
  "Operation_validate_operands a b = Inr ()"

definition Addition_execute :: "'v number_type \<Rightarrow> 'v \<Rightarrow> 'v \<Rightarrow> pyerr + 'v" where
  "Addition_execute T a b =
     (case Operation_validate_operands a b of Inl e \<Rightarrow> Inl e | Inr u \<Rightarrow> py_add T a b)"

definition Subtraction_execute :: "'v number_type \<Rightarrow> 'v \<Rightarrow> 'v \<Rightarrow> pyerr + 'v" where
  "Subtraction_execute T a b =
     (case Operation_validate_operands a b of Inl e \<Rightarrow> Inl e | Inr u \<Rightarrow> py_sub T a b)"

definition Multiplication_execute :: "'v number_type \<Rightarrow> 'v \<Rightarrow> 'v \<Rightarrow> pyerr + 'v" where
  "Multiplication_execute T a b =
     (case Operation_validate_operands a b of Inl e \<Rightarrow> Inl e | Inr u \<Rightarrow> py_mul T a b)"

definition Division_validate_operands :: "'v number_type \<Rightarrow> 'v \<Rightarrow> 'v \<Rightarrow> pyerr + unit" where
  "Division_validate_operands T a b =
     (case Operation_validate_operands a b of
        Inl e \<Rightarrow> Inl e
      | Inr u \<Rightarrow>
          (case py_eq_zero T b of
             Inl e \<Rightarrow> Inl e
           | Inr z \<Rightarrow>
               if z then Inl (ValidationError ''Division by zero is not allowed'') else Inr ()))"

definition Division_execute :: "'v number_type \<Rightarrow> 'v \<Rightarrow> 'v \<Rightarrow> pyerr + 'v" where
  "Division_execute T a b =
     (case Division_validate_operands T a b of Inl e \<Rightarrow> Inl e | Inr u \<Rightarrow> py_truediv T a b)"

section \<open>The number type Decimal\<close>

text \<open>
  A \<^verbatim>\<open>decimal.Decimal\<close> is a sign (true for negative), a coefficient and an exponent,
  or an infinity, or a quiet or signalling NaN with its payload (0 for none).  The value of a
  finite one is the coefficient times ten to the exponent.  The arithmetic is that of the
  \<^verbatim>\<open>decimal\<close> module of the standard library, which the module imports and does not
  configure: a context gives the precision and the exponent range; the rounding is
  \<^verbatim>\<open>ROUND_HALF_EVEN\<close>, \<^verbatim>\<open>clamp\<close> is 0, and the signals
  \<^verbatim>\<open>InvalidOperation\<close>, \<^verbatim>\<open>DivisionByZero\<close> and \<^verbatim>\<open>Overflow\<close> are trapped
  (they raise), as in the default context; the other signals only set flags, which are not
  part of the model.  Each function below follows the method of that name in the library.
\<close>

datatype decimal =
    Finite bool nat int
  | Infinity bool
  | NaN bool nat
  | SNaN bool nat

record decimal_context =
  prec :: nat
  Emin :: int
  Emax :: int

definition DefaultContext :: decimal_context where
  "DefaultContext = \<lparr>prec = 28, Emin = - 999999, Emax = 999999\<rparr>"

definition Etiny :: "decimal_context \<Rightarrow> int" where
  "Etiny ctx = Emin ctx - int (prec ctx) + 1"

definition Etop :: "decimal_context \<Rightarrow> int" where
  "Etop ctx = Emax ctx - int (prec ctx) + 1"

text \<open>The number of digits of a coefficient, \<^verbatim>\<open>len(self._int)\<close>.\<close>

fun ndigits :: "nat \<Rightarrow> nat" where
  "ndigits n = (if n < 10 then 1 else Suc (ndigits (n div 10)))"

declare ndigits.simps [simp del]

fun sign :: "decimal \<Rightarrow> bool" where
  "sign (Finite s c e) = s"
| "sign (Infinity s) = s"
| "sign (NaN s p) = s"
| "sign (SNaN s p) = s"

fun isinfinity :: "decimal \<Rightarrow> bool" where
  "isinfinity (Infinity s) = True"
| "isinfinity d = False"

text \<open>\<^verbatim>\<open>not d\<close>: a finite number with coefficient 0, of either sign and any exponent.\<close>

fun iszero :: "decimal \<Rightarrow> bool" where
  "iszero (Finite s c e) = (c = 0)"
| "iszero d = False"

fun copy_negate :: "decimal \<Rightarrow> decimal" where
  "copy_negate (Finite s c e) = Finite (\<not> s) c e"
| "copy_negate (Infinity s) = Infinity (\<not> s)"
| "copy_negate (NaN s p) = NaN (\<not> s) p"
| "copy_negate (SNaN s p) = SNaN (\<not> s) p"

text \<open>A payload longer than the precision keeps its last digits.\<close>

definition fix_payload :: "decimal_context \<Rightarrow> nat \<Rightarrow> nat" where
  "fix_payload ctx p =
     (if p \<noteq> 0 \<and> prec ctx < ndigits p then p mod 10 ^ prec ctx else p)"

fun fix_nan :: "decimal_context \<Rightarrow> decimal \<Rightarrow> decimal" where
  "fix_nan ctx (NaN s p) = NaN s (fix_payload ctx p)"
| "fix_nan ctx (SNaN s p) = SNaN s (fix_payload ctx p)"
| "fix_nan ctx d = d"

text \<open>
  \<^verbatim>\<open>_check_nans\<close>: a signalling NaN on either side raises, the first operand first;
  otherwise a quiet NaN is the result; \<open>None\<close> when neither operand is a NaN.
\<close>

fun check_nans :: "decimal_context \<Rightarrow> decimal \<Rightarrow> decimal \<Rightarrow> (pyerr + decimal) option" where
  "check_nans ctx (SNaN s p) b = Some (Inl InvalidOperation)"
| "check_nans ctx a (SNaN s p) = Some (Inl InvalidOperation)"
| "check_nans ctx (NaN s p) b = Some (Inr (fix_nan ctx (NaN s p)))"
| "check_nans ctx a (NaN s p) = Some (Inr (fix_nan ctx (NaN s p)))"
| "check_nans ctx a b = None"

text \<open>
  \<^verbatim>\<open>_round_half_even\<close> on a coefficient of which the last \<open>k\<close> digits are dropped:
  1 to round up, 0 when the dropped digits are all zero, -1 to truncate.
\<close>

definition round_half_even :: "nat \<Rightarrow> nat \<Rightarrow> int" where
  "round_half_even c k =
     (let r = c mod 10 ^ k; h = 5 * 10 ^ (k - 1)
      in if r = h \<and> even (c div 10 ^ k) then - 1
         else if h \<le> r then 1
         else if r = 0 then 0
         else - 1)"

text \<open>
  \<^verbatim>\<open>_fix\<close>: the result of an operation is brought into the context.  A zero has its
  exponent moved into range; a number beyond the largest exponent raises
  \<^verbatim>\<open>Overflow\<close>; a coefficient with more digits than the precision, or an exponent
  below the smallest one, is rounded.
\<close>

fun Decimal_fix :: "decimal_context \<Rightarrow> decimal \<Rightarrow> pyerr + decimal" where
  "Decimal_fix ctx (Finite s c e) =
     (if c = 0 then Inr (Finite s 0 (min (max e (Etiny ctx)) (Emax ctx)))
      else
        let exp_min0 = int (ndigits c) + e - int (prec ctx) in
        if Etop ctx < exp_min0 then Inl Overflow
        else
          let exp_min = (if exp_min0 < Etiny ctx then Etiny ctx else exp_min0) in
          if e < exp_min then
            let digits = int (ndigits c) + e - exp_min;
                c1 = (if digits < 0 then 1 else c);
                k = (if digits < 0 then 1 else nat (exp_min - e));
                changed = round_half_even c1 k;
                coeff = c1 div 10 ^ k;
                coeff1 = (if 0 < changed then coeff + 1 else coeff);
                carry = (0 < changed \<and> prec ctx < ndigits coeff1);
                coeff2 = (if carry then coeff1 div 10 else coeff1);
                exp_min1 = (if carry then exp_min + 1 else exp_min)
            in if Etop ctx < exp_min1 then Inl Overflow
               else Inr (Finite s coeff2 exp_min1)
          else Inr (Finite s c e))"
| "Decimal_fix ctx (Infinity s) = Inr (Infinity s)"
| "Decimal_fix ctx d = Inr (fix_nan ctx d)"

declare Decimal_fix.simps [simp del]

text \<open>\<^verbatim>\<open>_rescale\<close>: the same number at another exponent, padded or rounded.\<close>

fun rescale :: "decimal \<Rightarrow> int \<Rightarrow> decimal" where
  "rescale (Finite s c e) expn =
     (if c = 0 then Finite s 0 expn
      else if expn \<le> e then Finite s (c * 10 ^ nat (e - expn)) expn
      else
        let digits = int (ndigits c) + e - expn;
            c1 = (if digits < 0 then 1 else c);
            k = (if digits < 0 then 1 else nat (expn - e));
            changed = round_half_even c1 k;
            coeff = c1 div 10 ^ k
        in Finite s (if changed = 1 then coeff + 1 else coeff) expn)"
| "rescale d expn = d"

declare rescale.simps [simp del]

text \<open>
  \<^verbatim>\<open>_normalize\<close> brings two coefficients to one exponent before they are added.  An
  operand too small to reach the last digit the precision keeps is replaced by a 1 just
  below that digit, so that the power of ten stays small.
\<close>

definition normalize_ops :: "nat \<times> int \<Rightarrow> nat \<times> int \<Rightarrow> nat \<Rightarrow> (nat \<times> int) \<times> (nat \<times> int)" where
  "normalize_ops op1 op2 p =
     (let tmp = (if snd op1 < snd op2 then op2 else op1);
          other = (if snd op1 < snd op2 then op1 else op2);
          expn = snd tmp + min (- 1) (int (ndigits (fst tmp)) - int p - 2);
          other1 = (if int (ndigits (fst other)) + snd other - 1 < expn then (1, expn) else other);
          tmp1 = (fst tmp * 10 ^ nat (snd tmp - snd other1), snd other1)
      in if snd op1 < snd op2 then (other1, tmp1) else (tmp1, other1))"

text \<open>\<^verbatim>\<open>Decimal.__add__\<close>.\<close>

fun Decimal_add :: "decimal_context \<Rightarrow> decimal \<Rightarrow> decimal \<Rightarrow> pyerr + decimal" where
  "Decimal_add ctx (Finite s1 c1 e1) (Finite s2 c2 e2) =
     (let expn = min e1 e2 in
      if c1 = 0 \<and> c2 = 0 then Decimal_fix ctx (Finite (s1 \<and> s2) 0 expn)
      else if c1 = 0 then
        Decimal_fix ctx (rescale (Finite s2 c2 e2) (max expn (e2 - int (prec ctx) - 1)))
      else if c2 = 0 then
        Decimal_fix ctx (rescale (Finite s1 c1 e1) (max expn (e1 - int (prec ctx) - 1)))
      else
        let ops = normalize_ops (c1, e1) (c2, e2) (prec ctx);
            n1 = fst (fst ops); x1 = snd (fst ops);
            n2 = fst (snd ops); x2 = snd (snd ops)
        in if s1 \<noteq> s2 then
             if n1 = n2 then Decimal_fix ctx (Finite False 0 expn)
             else if n1 < n2 then Decimal_fix ctx (Finite s2 (n2 - n1) x2)
             else Decimal_fix ctx (Finite s1 (n1 - n2) x1)
           else Decimal_fix ctx (Finite s1 (n1 + n2) x1))"
| "Decimal_add ctx a b =
     (case check_nans ctx a b of
        Some r \<Rightarrow> r
      | None \<Rightarrow>
          if isinfinity a then
            (if sign a \<noteq> sign b \<and> isinfinity b then Inl InvalidOperation else Inr a)
          else Inr b)"

declare Decimal_add.simps [simp del]

text \<open>\<^verbatim>\<open>Decimal.__sub__\<close>: the NaN check, then the sum with the negated operand.\<close>

definition Decimal_sub :: "decimal_context \<Rightarrow> decimal \<Rightarrow> decimal \<Rightarrow> pyerr + decimal" where
  "Decimal_sub ctx a b =
     (case check_nans ctx a b of
        Some r \<Rightarrow> r
      | None \<Rightarrow> Decimal_add ctx a (copy_negate b))"

text \<open>\<^verbatim>\<open>Decimal.__mul__\<close>.\<close>

fun Decimal_mul :: "decimal_context \<Rightarrow> decimal \<Rightarrow> decimal \<Rightarrow> pyerr + decimal" where
  "Decimal_mul ctx (Finite s1 c1 e1) (Finite s2 c2 e2) =
     (let resultsign = (s1 \<noteq> s2); resultexp = e1 + e2 in
      if c1 = 0 \<or> c2 = 0 then Decimal_fix ctx (Finite resultsign 0 resultexp)
      else if c1 = 1 then Decimal_fix ctx (Finite resultsign c2 resultexp)
      else if c2 = 1 then Decimal_fix ctx (Finite resultsign c1 resultexp)
      else Decimal_fix ctx (Finite resultsign (c1 * c2) resultexp))"
| "Decimal_mul ctx a b =
     (case check_nans ctx a b of
        Some r \<Rightarrow> r
      | None \<Rightarrow>
          if isinfinity a then
            (if iszero b then Inl InvalidOperation else Inr (Infinity (sign a \<noteq> sign b)))
          else
            (if iszero a then Inl InvalidOperation else Inr (Infinity (sign a \<noteq> sign b))))"

declare Decimal_mul.simps [simp del]

text \<open>
  The loop of \<^verbatim>\<open>__truediv__\<close> that, after an exact division, removes trailing zeros
  while the exponent is below the ideal one.
\<close>

function strip_zeros :: "nat \<Rightarrow> int \<Rightarrow> int \<Rightarrow> nat \<times> int" where
  "strip_zeros coeff expn ideal_exp =
     (if expn < ideal_exp \<and> coeff mod 10 = 0
      then strip_zeros (coeff div 10) (expn + 1) ideal_exp
      else (coeff, expn))"
  by pat_completeness auto
termination
  by (relation "measure (\<lambda>(coeff, expn, ideal_exp). nat (ideal_exp - expn))") auto

declare strip_zeros.simps [simp del]

text \<open>
  \<^verbatim>\<open>Decimal.__truediv__\<close>: the quotient of the coefficients is taken with one digit
  more than the precision; when a remainder is left, a last digit 0 or 5 is moved off the
  half-way point so that the rounding of \<open>Decimal_fix\<close> is the right one.
\<close>

fun Decimal_truediv :: "decimal_context \<Rightarrow> decimal \<Rightarrow> decimal \<Rightarrow> pyerr + decimal" where
  "Decimal_truediv ctx (Finite s1 c1 e1) (Finite s2 c2 e2) =
     (let sign = (s1 \<noteq> s2) in
      if c2 = 0 then (if c1 = 0 then Inl InvalidOperation else Inl DivisionByZero)
      else if c1 = 0 then Decimal_fix ctx (Finite sign 0 (e1 - e2))
      else
        let shift = int (ndigits c2) - int (ndigits c1) + int (prec ctx) + 1;
            expn = e1 - e2 - shift;
            num = (if 0 \<le> shift then c1 * 10 ^ nat shift else c1);
            den = (if 0 \<le> shift then c2 else c2 * 10 ^ nat (- shift));
            coeff = num div den;
            remainder = num mod den
        in if remainder \<noteq> 0
           then Decimal_fix ctx (Finite sign (if coeff mod 5 = 0 then coeff + 1 else coeff) expn)
           else Decimal_fix ctx (Finite sign (fst (strip_zeros coeff expn (e1 - e2)))
                                     (snd (strip_zeros coeff expn (e1 - e2)))))"
| "Decimal_truediv ctx a b =
     (case check_nans ctx a b of
        Some r \<Rightarrow> r
      | None \<Rightarrow>
          if isinfinity a \<and> isinfinity b then Inl InvalidOperation
          else if isinfinity a then Inr (Infinity (sign a \<noteq> sign b))
          else Inr (Finite (sign a \<noteq> sign b) 0 (Etiny ctx)))"

declare Decimal_truediv.simps [simp del]

text \<open>
  \<^verbatim>\<open>b == 0\<close>, that is \<^verbatim>\<open>Decimal.__eq__\<close> against the integer 0: a signalling NaN
  raises, a quiet NaN is unequal to everything, and otherwise the values are compared.
\<close>

definition Decimal_eq_zero :: "decimal_context \<Rightarrow> decimal \<Rightarrow> pyerr + bool" where
  "Decimal_eq_zero ctx b =
     (case check_nans ctx b (Finite False 0 0) of
        Some (Inl e) \<Rightarrow> Inl e
      | Some (Inr n) \<Rightarrow> Inr False
      | None \<Rightarrow> Inr (iszero b))"

definition Decimal :: "decimal_context \<Rightarrow> decimal number_type" where
  "Decimal ctx =
     \<lparr>py_add = Decimal_add ctx, py_sub = Decimal_sub ctx, py_mul = Decimal_mul ctx,
      py_truediv = Decimal_truediv ctx, py_eq_zero = Decimal_eq_zero ctx\<rparr>"

subsection \<open>Exact values\<close>

text \<open>The rational number that a finite Decimal stands for.\<close>

fun dec_value :: "decimal \<Rightarrow> rat option" where
  "dec_value (Finite s c e) = Some ((if s then - 1 else 1) * of_nat c * 10 powi e)"
| "dec_value d = None"

text \<open>
  A rational \<open>z\<close> is representable in a context as \<open>m\<close> times ten to the \<open>j\<close> when
  that is its value, \<open>m\<close> has no more digits than the precision, \<open>j\<close> is not below the
  smallest exponent and \<open>z\<close> is below ten to the largest exponent plus one.
\<close>

definition representable :: "decimal_context \<Rightarrow> rat \<Rightarrow> int \<Rightarrow> int \<Rightarrow> bool" where
  "representable ctx z m j \<longleftrightarrow>
     z = of_int m * 10 powi j \<and> \<bar>m\<bar> < 10 ^ prec ctx \<and> Etiny ctx \<le> j
     \<and> \<bar>z\<bar> < 10 powi (Emax ctx + 1)"

section \<open>Strings: lowering is idempotent\<close>



lemma lower_examples:
  "lower ''Base'' = ''base''" "lower ''BASE'' = ''base''" "lower ''base'' = ''base''"
  "lower ''BOGUS'' = ''bogus''" "lower ''Bogus'' = ''bogus''" "lower ''bogus'' = ''bogus''"
  "lower ''ADD'' = ''add''" "lower ''MINUS'' = ''minus''" "lower ''Minus'' = ''minus''"
  "lower ''Zero'' = ''zero''" "lower ''ZERO'' = ''zero''" "lower ''zero'' = ''zero''"
  "lower ''mod'' = ''mod''" "lower ''bad'' = ''bad''" "lower ''op'' = ''op''"
  "lower ''plus'' = ''plus''"
  by code_simp+

section \<open>Classes: what the subclass check accepts\<close>

lemma issubclass_inherits:
  "inherits k Operation \<Longrightarrow> issubclass (ClassObj k) Operation = Inr True"
  by (simp add: issubclass_def inherits_def)

lemma issubclass_ordinary:
  "abc_verdict (class_traits k) = Inr False \<Longrightarrow>
   issubclass (ClassObj k) Operation = Inr (inherits k Operation)"
  by (simp add: issubclass_def inherits_def)


lemma not_class_issubclass:
  "\<not> is_class x \<Longrightarrow> issubclass x c = Inl (TypeError ''issubclass() arg 1 must be a class'')"
  by (cases x) (simp_all add: issubclass_def is_class_def)

lemma register_operation_rejects:
  assumes "issubclass x Operation \<noteq> Inr True"
  shows "register_operation f name x =
     ((case issubclass x Operation of
         Inl e \<Rightarrow> Inl e
       | Inr b \<Rightarrow> Inl (TypeError ''Operation class must inherit from Operation'')), f)"
proof (cases "issubclass x Operation")
  case (Inl e)
  then show ?thesis by (simp add: register_operation_def)
next
  case (Inr b)
  with assms have "\<not> b" by auto
  with Inr show ?thesis by (simp add: register_operation_def)
qed

lemma register_operation_accepts:
  "issubclass (ClassObj c) Operation = Inr True \<Longrightarrow>
   register_operation f name (ClassObj c) =
     (Inr (), f\<lparr>operations := (operations f)(lower name \<mapsto> c)\<rparr>)"
  by (simp add: register_operation_def)

lemma Operation_inherits_itself: "inherits Operation Operation"
  by (simp add: inherits_def Operation_def)

lemma Operation_uses_ABCMeta: "uses_ABCMeta Operation"
  by (simp add: Operation_def ABC_def)

lemma subclass_uses_ABCMeta: "Operation \<in> set (mro c) \<Longrightarrow> uses_ABCMeta c"
proof (induction c)
  case PyObject
  then show ?case by (simp add: Operation_def)
next
  case (PyClass n b ms t)
  show ?case
  proof (cases "PyClass n b ms t = Operation")
    case True
    then show ?thesis using Operation_uses_ABCMeta by simp
  next
    case False
    with PyClass.prems have "Operation \<in> set (mro b)" by auto
    then show ?thesis using PyClass.IH by simp
  qed
qed

lemma execute_in_abstractmethods_Operation: "''execute'' \<in> set (abstractmethods Operation)"
  by (simp add: Operation_def ABC_def)

lemma execute_stays_abstract:
  "Operation \<in> set (mro c) \<Longrightarrow> still_abstract c ''execute'' \<Longrightarrow>
   ''execute'' \<in> set (abstractmethods c)"
proof (induction c)
  case PyObject
  then show ?case by (simp add: Operation_def)
next
  case (PyClass n b ms t)
  show ?case
  proof (cases "PyClass n b ms t = Operation")
    case True
    then show ?thesis using execute_in_abstractmethods_Operation by simp
  next
    case False
    with PyClass.prems have sub: "Operation \<in> set (mro b)" by auto
    have meta: "uses_ABCMeta (PyClass n b ms t)"
      using subclass_uses_ABCMeta [OF PyClass.prems(1)] .
    show ?thesis
    proof (cases "map_of ms ''execute''")
      case None
      with PyClass.prems(2) have "still_abstract b ''execute''"
        by (simp add: still_abstract_def)
      with sub PyClass.IH have "''execute'' \<in> set (abstractmethods b)" by simp
      with PyClass.prems(2) meta show ?thesis by simp
    next
      case (Some m)
      with PyClass.prems(2) have abs: "is_abstract m"
        by (simp add: still_abstract_def)
      from Some have "(''execute'', m) \<in> set ms" by (rule map_of_SomeD)
      with abs have "''execute'' \<in> fst ` {x \<in> set ms. case x of (a, m) \<Rightarrow> is_abstract m}"
        by force
      with meta show ?thesis by simp
    qed
  qed
qed

section \<open>Classes: what the call of a class gives\<close>

lemma instantiate_abstract:
  "constructor (class_traits c) = ObjectNew raised \<Longrightarrow> abstractmethods c \<noteq> [] \<Longrightarrow>
   instantiate c = Inl (TypeError (''Can't instantiate abstract class '' @ cname c))"
  by (simp add: instantiate_def)

lemma instantiate_constructs: "constructs c \<Longrightarrow> instantiate c = Inr (InstanceObj c)"
  by (simp add: instantiate_def constructs_def)




lemma caller_classes:
  "inherits ModVariant Operation" "true_class ModVariant" "constructs ModVariant"
  "inherits Partial Operation" "true_class Partial" "still_abstract Partial ''execute''"
  "inherits Falsy Operation" "truth_value (class_traits Falsy) = Inr False" "constructs Falsy"
  "inherits Scaled Operation" "true_class Scaled" "abstractmethods Scaled = []"
  "inherits Shared Operation" "true_class Shared" "abstractmethods Shared = []"
  "\<not> inherits Registered Operation" "true_class Registered" "constructs Registered"
  "\<not> inherits Plain Operation" "\<not> inherits Duck Operation"
  by (simp_all add: inherits_def true_class_def constructs_def still_abstract_def ordinary_def
      ModVariant_def Partial_def Falsy_def Scaled_def Shared_def Registered_def Plain_def
      Duck_def Operation_def ABC_def)

section \<open>The registry keeps its keys in lower case\<close>



section \<open>Decimal: digits and powers of ten\<close>

lemma ndigits_pos: "0 < ndigits n"
  by (subst ndigits.simps) simp

lemma ndigits_upper: "n < 10 ^ ndigits n"
proof (induction n rule: ndigits.induct)
  case (1 n)
  show ?case
  proof (cases "n < 10")
    case True
    then show ?thesis by (subst ndigits.simps) simp
  next
    case False
    with 1 have "n div 10 < 10 ^ ndigits (n div 10)" by simp
    then have "n < 10 * 10 ^ ndigits (n div 10)" by linarith
    with False show ?thesis by (subst ndigits.simps) simp
  qed
qed

lemma ndigits_lower: "0 < n \<Longrightarrow> 10 ^ (ndigits n - 1) \<le> n"
proof (induction n rule: ndigits.induct)
  case (1 n)
  show ?case
  proof (cases "n < 10")
    case True
    with 1 show ?thesis by (subst ndigits.simps) simp
  next
    case False
    then have pos: "0 < n div 10" by simp
    with 1 False have "10 ^ (ndigits (n div 10) - 1) \<le> n div 10" by simp
    then have "10 * 10 ^ (ndigits (n div 10) - 1) \<le> n" by linarith
    moreover have "0 < ndigits (n div 10)" by (rule ndigits_pos)
    ultimately have "10 ^ ndigits (n div 10) \<le> n"
      by (cases "ndigits (n div 10)") simp_all
    with False show ?thesis by (subst ndigits.simps) simp
  qed
qed

lemma ndigits_le: "n < 10 ^ p \<Longrightarrow> 0 < p \<Longrightarrow> ndigits n \<le> p"
proof (cases "n = 0")
  case True
  assume "0 < p"
  with True show ?thesis by (subst ndigits.simps) simp
next
  case False
  assume lt: "n < 10 ^ p"
  from False have "(10::nat) ^ (ndigits n - 1) \<le> n" using ndigits_lower [of n] by simp
  with lt have "(10::nat) ^ (ndigits n - 1) < 10 ^ p" by linarith
  then have "ndigits n - 1 < p" by simp
  then show ?thesis by simp
qed

lemma ndigits_gt: "10 ^ p \<le> n \<Longrightarrow> p < ndigits n"
proof -
  assume "10 ^ p \<le> n"
  with ndigits_upper [of n] have "(10::nat) ^ p < 10 ^ ndigits n" by linarith
  then show ?thesis by simp
qed

lemma round_half_even_exact: "0 < k \<Longrightarrow> 10 ^ k dvd c \<Longrightarrow> round_half_even c k = 0"
  by (auto simp: round_half_even_def Let_def)

lemma pow10_split: "e \<le> j \<Longrightarrow> (10::rat) powi j = 10 powi e * 10 ^ nat (j - e)"
proof -
  assume le: "e \<le> j"
  have "(10::rat) powi j = 10 powi (e + (j - e))" by simp
  also have "\<dots> = 10 powi e * 10 powi (j - e)"
    by (rule power_int_add) simp
  also from le have "(10::rat) powi (j - e) = 10 ^ nat (j - e)"
    by (simp add: power_int_def)
  finally show ?thesis .
qed

lemma pow10_nonzero: "(10::rat) powi e \<noteq> 0"
  by simp

lemma scaled_eq_ge:
  assumes "of_nat c * 10 powi e = of_nat m * (10::rat) powi j" and "e \<le> j"
  shows "c = m * 10 ^ nat (j - e)"
proof -
  from assms have "of_nat c * (10::rat) powi e = of_nat m * (10 powi e * 10 ^ nat (j - e))"
    by (simp add: pow10_split)
  then have "(of_nat c :: rat) * 10 powi e = of_nat (m * 10 ^ nat (j - e)) * 10 powi e"
    by (simp add: mult_ac)
  then have "(of_nat c :: rat) = of_nat (m * 10 ^ nat (j - e))"
    using pow10_nonzero [of e] by (simp only: mult_cancel_right) simp
  then show ?thesis
    by (simp only: of_nat_eq_iff)
qed

lemma scaled_eq_le:
  assumes "of_nat c * 10 powi e = of_nat m * (10::rat) powi j" and "j \<le> e"
  shows "m = c * 10 ^ nat (e - j)"
  using scaled_eq_ge [of m j c e] assms by simp

lemma scaled_value_div:
  assumes "10 ^ k dvd c"
  shows "of_nat (c div 10 ^ k) * (10::rat) powi (e + int k) = of_nat c * 10 powi e"
proof -
  from assms obtain q where c: "c = 10 ^ k * q" ..
  have "(10::rat) powi (e + int k) = 10 powi e * 10 ^ nat (e + int k - e)"
    by (rule pow10_split) simp
  then have "(10::rat) powi (e + int k) = 10 powi e * 10 ^ k" by simp
  with c show ?thesis by simp
qed

lemma pow10_mono_nat: "a \<le> b \<Longrightarrow> (10::nat) ^ a \<le> 10 ^ b"
  by simp

section \<open>Decimal: a representable value passes through the context unchanged\<close>

lemma fix_exact_int:
  assumes c: "0 < c"
    and top: "int (ndigits c) + e \<le> Emax ctx + 1"
    and ctxok: "Emin ctx \<le> Emax ctx"
    and tiny: "e < Etiny ctx \<Longrightarrow> 10 ^ nat (Etiny ctx - e) dvd c"
    and long: "prec ctx < ndigits c \<Longrightarrow> 10 ^ (ndigits c - prec ctx) dvd c"
  shows "\<exists>k. Decimal_fix ctx (Finite s c e) = Inr (Finite s (c div 10 ^ k) (e + int k))
             \<and> 10 ^ k dvd c"
proof -
  define exp_min0 where "exp_min0 = int (ndigits c) + e - int (prec ctx)"
  define exp_min where "exp_min = (if exp_min0 < Etiny ctx then Etiny ctx else exp_min0)"
  have notover: "\<not> Etop ctx < exp_min0"
    using top by (simp add: Etop_def exp_min0_def)
  have tinytop: "Etiny ctx \<le> Etop ctx"
    using ctxok by (simp add: Etiny_def Etop_def)
  have notover': "\<not> Etop ctx < exp_min"
    using notover tinytop by (simp add: exp_min_def)
  show ?thesis
  proof (cases "e < exp_min")
    case False
    then have "Decimal_fix ctx (Finite s c e) = Inr (Finite s c e)"
      using c notover unfolding exp_min_def exp_min0_def
      by (simp add: Decimal_fix.simps Let_def)
    then have "Decimal_fix ctx (Finite s c e) = Inr (Finite s (c div 10 ^ 0) (e + int 0))
        \<and> 10 ^ 0 dvd c"
      by simp
    then show ?thesis by (rule exI)
  next
    case True
    define k where "k = nat (exp_min - e)"
    from True have kpos: "0 < k" and ek: "exp_min = e + int k"
      by (simp_all add: k_def)
    have dvd: "10 ^ k dvd c"
    proof (cases "exp_min0 < Etiny ctx")
      case True
      then have "exp_min = Etiny ctx" by (simp add: exp_min_def)
      with \<open>e < exp_min\<close> tiny show ?thesis by (simp add: k_def)
    next
      case False
      then have em: "exp_min = exp_min0" by (simp add: exp_min_def)
      with \<open>e < exp_min\<close> have "prec ctx < ndigits c"
        by (simp add: exp_min0_def)
      moreover from this em have "k = ndigits c - prec ctx"
        by (simp add: k_def exp_min0_def)
      ultimately show ?thesis using long by simp
    qed
    with c have "10 ^ k \<le> c" by (auto dest: dvd_imp_le)
    then have kn: "k < ndigits c" by (rule ndigits_gt)
    have digits: "\<not> int (ndigits c) + e - exp_min < 0"
      using kn ek by simp
    have changed: "round_half_even c k = 0"
      using kpos dvd by (rule round_half_even_exact)
    have "Decimal_fix ctx (Finite s c e) = Inr (Finite s (c div 10 ^ k) exp_min)"
      using c notover notover' True digits changed
      unfolding k_def exp_min_def exp_min0_def by (simp add: Decimal_fix.simps Let_def)
    with ek dvd show ?thesis by auto
  qed
qed

lemma fix_nat_exact:
  assumes ctxok: "Emin ctx \<le> Emax ctx"
    and rep: "of_nat c * 10 powi e = of_nat m * (10::rat) powi j"
    and m: "m < 10 ^ prec ctx"
    and j: "Etiny ctx \<le> j"
    and top: "of_nat c * 10 powi e < (10::rat) powi (Emax ctx + 1)"
  shows "\<exists>c' e'. Decimal_fix ctx (Finite s c e) = Inr (Finite s c' e')
           \<and> of_nat c' * (10::rat) powi e' = of_nat c * 10 powi e"
proof (cases "c = 0")
  case True
  then show ?thesis by (simp add: Decimal_fix.simps)
next
  case False
  then have c: "0 < c" by simp
  define n where "n = ndigits c"
  have lower: "10 ^ (n - 1) \<le> c"
    using c unfolding n_def by (rule ndigits_lower)
  have npos: "0 < n"
    unfolding n_def by (rule ndigits_pos)
  have top_int: "int n + e \<le> Emax ctx + 1"
  proof (rule ccontr)
    assume "\<not> int n + e \<le> Emax ctx + 1"
    then have "Emax ctx + 1 \<le> int (n - 1) + e" using npos by simp
    then have "(10::rat) powi (Emax ctx + 1) \<le> 10 powi (int (n - 1) + e)"
      by (intro power_int_increasing) simp_all
    also have "\<dots> = 10 ^ (n - 1) * 10 powi e"
      by (subst power_int_add) simp_all
    also have "\<dots> \<le> of_nat c * 10 powi e"
    proof -
      from lower have "(of_nat (10 ^ (n - 1)) :: rat) \<le> of_nat c"
        by (simp only: of_nat_le_iff)
      then have "(10 ^ (n - 1) :: rat) \<le> of_nat c" by simp
      then show ?thesis by (simp add: mult_right_mono)
    qed
    finally show False using top by simp
  qed
  have tiny: "10 ^ nat (Etiny ctx - e) dvd c" if "e < Etiny ctx"
  proof -
    from that j have "e \<le> j" by simp
    with rep have "c = m * 10 ^ nat (j - e)" by (rule scaled_eq_ge)
    moreover from that j have "nat (Etiny ctx - e) \<le> nat (j - e)" by simp
    then have "(10::nat) ^ nat (Etiny ctx - e) dvd 10 ^ nat (j - e)"
      by (rule le_imp_power_dvd)
    ultimately show ?thesis by (metis dvd_mult)
  qed
  have long: "10 ^ (n - prec ctx) dvd c" if "prec ctx < n"
  proof (cases "j \<le> e")
    case True
    with rep have "m = c * 10 ^ nat (e - j)" by (rule scaled_eq_le)
    then have "c \<le> m" by simp
    moreover from that have "(10::nat) ^ prec ctx \<le> 10 ^ (n - 1)"
      by (intro pow10_mono_nat) simp
    ultimately show ?thesis using lower m by simp
  next
    case False
    then have "e \<le> j" by simp
    with rep have ceq: "c = m * 10 ^ nat (j - e)" by (rule scaled_eq_ge)
    have "c < 10 ^ prec ctx * 10 ^ nat (j - e)"
      unfolding ceq using m by simp
    with lower have "(10::nat) ^ (n - 1) < 10 ^ (prec ctx + nat (j - e))"
      by (simp add: power_add)
    then have "n - 1 < prec ctx + nat (j - e)" by simp
    with that have "n - prec ctx \<le> nat (j - e)" by simp
    then have "(10::nat) ^ (n - prec ctx) dvd 10 ^ nat (j - e)"
      by (rule le_imp_power_dvd)
    with ceq show ?thesis by (metis dvd_mult)
  qed
  from fix_exact_int [of c e ctx s, OF c top_int [unfolded n_def] ctxok tiny long [unfolded n_def]]
  obtain k where k: "Decimal_fix ctx (Finite s c e) = Inr (Finite s (c div 10 ^ k) (e + int k))"
    and dvd: "10 ^ k dvd c"
    by blast
  from dvd have "of_nat (c div 10 ^ k) * (10::rat) powi (e + int k) = of_nat c * 10 powi e"
    by (rule scaled_value_div)
  with k show ?thesis by blast
qed

lemma fix_value_exact:
  assumes ctxok: "Emin ctx \<le> Emax ctx"
    and val: "dec_value (Finite s c e) = Some z"
    and rep: "z = of_int M * 10 powi j"
    and m: "\<bar>M\<bar> < 10 ^ prec ctx"
    and j: "Etiny ctx \<le> j"
    and top: "\<bar>z\<bar> < 10 powi (Emax ctx + 1)"
  shows "\<exists>r. Decimal_fix ctx (Finite s c e) = Inr r \<and> dec_value r = Some z"
proof -
  from val have z: "z = (if s then - 1 else 1) * of_nat c * 10 powi e" by simp
  then have absz: "\<bar>z\<bar> = of_nat c * 10 powi e"
    by (simp add: abs_mult)
  from rep have "\<bar>z\<bar> = of_nat (nat \<bar>M\<bar>) * 10 powi j"
    by (simp add: abs_mult)
  with absz have rep': "of_nat c * 10 powi e = of_nat (nat \<bar>M\<bar>) * (10::rat) powi j"
    by simp
  from m have m': "nat \<bar>M\<bar> < 10 ^ prec ctx"
    by (simp add: nat_less_iff)
  from top absz have top': "of_nat c * 10 powi e < (10::rat) powi (Emax ctx + 1)"
    by simp
  from fix_nat_exact [OF ctxok rep' m' j top', of s]
  obtain c' e' where r: "Decimal_fix ctx (Finite s c e) = Inr (Finite s c' e')"
    and v: "of_nat c' * (10::rat) powi e' = of_nat c * 10 powi e"
    by blast
  from v z have "dec_value (Finite s c' e') = Some z"
    by (simp add: mult.assoc)
  with r show ?thesis by blast
qed

lemma representableI:
  assumes "z = of_int m * 10 powi j" and "\<bar>m\<bar> < 10 ^ prec ctx" and "Etiny ctx \<le> j"
    and "\<bar>z\<bar> < 10 powi k" and "k \<le> Emax ctx + 1"
  shows "representable ctx z m j"
proof -
  from assms(5) have "(10::rat) powi k \<le> 10 powi (Emax ctx + 1)"
    by (intro power_int_increasing) simp_all
  with assms(4) have "\<bar>z\<bar> < 10 powi (Emax ctx + 1)" by simp
  with assms(1-3) show ?thesis by (simp add: representable_def)
qed

lemma representableD:
  assumes "representable ctx z m j"
  shows "z = of_int m * 10 powi j" and "\<bar>m\<bar> < 10 ^ prec ctx" and "Etiny ctx \<le> j"
    and "\<bar>z\<bar> < 10 powi (Emax ctx + 1)"
  using assms unfolding representable_def by blast+

section \<open>Decimal: products and quotients\<close>

lemma Decimal_mul_finite:
  "Decimal_mul ctx (Finite s1 c1 e1) (Finite s2 c2 e2)
     = Decimal_fix ctx (Finite (s1 \<noteq> s2) (c1 * c2) (e1 + e2))"
  by (auto simp add: Decimal_mul.simps Let_def)

lemma dec_value_product:
  assumes "dec_value (Finite s1 c1 e1) = Some x" and "dec_value (Finite s2 c2 e2) = Some y"
  shows "dec_value (Finite (s1 \<noteq> s2) (c1 * c2) (e1 + e2)) = Some (x * y)"
proof -
  have "(10::rat) powi (e1 + e2) = 10 powi e1 * 10 powi e2"
    by (rule power_int_add) simp
  with assms show ?thesis by auto
qed

lemma strip_zeros_value:
  "of_nat (fst (strip_zeros c e i)) * (10::rat) powi (snd (strip_zeros c e i))
     = of_nat c * 10 powi e"
proof (induction c e i rule: strip_zeros.induct)
  case (1 coeff expn ideal_exp)
  show ?case
  proof (cases "expn < ideal_exp \<and> coeff mod 10 = 0")
    case False
    then show ?thesis by (subst (1 2) strip_zeros.simps) auto
  next
    case True
    then have "10 ^ 1 dvd coeff" by auto
    then have "of_nat (coeff div 10 ^ 1) * (10::rat) powi (expn + int 1) = of_nat coeff * 10 powi expn"
      by (rule scaled_value_div)
    with True 1 show ?thesis by (subst (1 2) strip_zeros.simps) simp
  qed
qed

lemma quotient_coefficient:
  assumes c1: "0 < c1" and c2: "0 < c2"
    and rep: "of_nat c1 = of_nat m * of_nat c2 * (10::rat) powi t"
    and m: "m < 10 ^ p"
    and shift: "shift = int (ndigits c2) - int (ndigits c1) + int p + 1"
  shows "1 \<le> t + shift"
    and "0 \<le> shift \<Longrightarrow> c1 * 10 ^ nat shift = (m * 10 ^ nat (t + shift)) * c2"
    and "shift < 0 \<Longrightarrow> c1 = (m * 10 ^ nat (t + shift)) * (c2 * 10 ^ nat (- shift))"
proof -
  show ts: "1 \<le> t + shift"
  proof (rule ccontr)
    assume "\<not> 1 \<le> t + shift"
    then have t: "t \<le> int (ndigits c1) - 1 - int (ndigits c2) - int p"
      using shift by simp
    have "m * c2 < 10 ^ p * 10 ^ ndigits c2"
      using m ndigits_upper [of c2] by (intro mult_strict_mono) simp_all
    then have "(of_nat (m * c2) :: rat) < of_nat (10 ^ p * 10 ^ ndigits c2)"
      by (simp only: of_nat_less_iff)
    then have "(of_nat m * of_nat c2 :: rat) < 10 powi (int p + int (ndigits c2))"
      by (simp add: power_int_add)
    then have "of_nat m * of_nat c2 * (10::rat) powi t < 10 powi (int p + int (ndigits c2)) * 10 powi t"
      by (simp add: mult_strict_right_mono)
    also have "\<dots> = 10 powi (int p + int (ndigits c2) + t)"
      by (subst power_int_add [symmetric]) simp_all
    also have "\<dots> \<le> 10 powi (int (ndigits c1 - 1))"
      using t ndigits_pos [of c1] by (intro power_int_increasing) simp_all
    also have "\<dots> = of_nat (10 ^ (ndigits c1 - 1))"
      by simp
    also have "\<dots> \<le> of_nat c1"
      using ndigits_lower [OF c1] by (simp only: of_nat_le_iff)
    finally show False using rep by simp
  qed
  have main: "of_nat c1 * (10::rat) powi shift = of_nat (m * 10 ^ nat (t + shift)) * of_nat c2"
  proof -
    have "of_nat c1 * (10::rat) powi shift = of_nat m * of_nat c2 * (10 powi t * 10 powi shift)"
      using rep by simp
    also have "(10::rat) powi t * 10 powi shift = 10 powi (t + shift)"
      by (subst power_int_add) simp_all
    also have "\<dots> = 10 ^ nat (t + shift)"
      using ts by (simp add: power_int_def)
    finally show ?thesis by simp
  qed
  show "c1 * 10 ^ nat shift = (m * 10 ^ nat (t + shift)) * c2" if "0 \<le> shift"
  proof -
    from that have "(10::rat) powi shift = 10 ^ nat shift"
      by (simp add: power_int_def)
    with main have "(of_nat (c1 * 10 ^ nat shift) :: rat) = of_nat ((m * 10 ^ nat (t + shift)) * c2)"
      by simp
    then show ?thesis by (simp only: of_nat_eq_iff)
  qed
  show "c1 = (m * 10 ^ nat (t + shift)) * (c2 * 10 ^ nat (- shift))" if "shift < 0"
  proof -
    have a: "(10::rat) powi shift * 10 powi (- shift) = 10 powi (shift + (- shift))"
      by (rule power_int_add [symmetric]) simp
    have b: "(10::rat) powi (- shift) = 10 ^ nat (- shift)"
      using that by (simp only: power_int_def) simp
    have "(10::rat) powi shift * 10 ^ nat (- shift) = 1"
      using a unfolding b by simp
    then have "of_nat c1 = of_nat c1 * ((10::rat) powi shift * 10 ^ nat (- shift))"
      by (simp only: mult_1_right)
    also have "\<dots> = (of_nat c1 * (10::rat) powi shift) * 10 ^ nat (- shift)"
      by (simp only: mult.assoc)
    also have "\<dots> = of_nat (m * 10 ^ nat (t + shift)) * of_nat c2 * 10 ^ nat (- shift)"
      by (simp only: main)
    also have "\<dots> = of_nat ((m * 10 ^ nat (t + shift)) * (c2 * 10 ^ nat (- shift)))"
      by (simp only: of_nat_mult of_nat_power of_nat_numeral mult.assoc)
    finally show ?thesis by (simp only: of_nat_eq_iff)
  qed
qed

lemma divide_eq_imp_eq_mult: "(b::rat) \<noteq> 0 \<Longrightarrow> a / b = c \<Longrightarrow> a = c * b"
  by auto

lemma Decimal_truediv_exact:
  assumes ctxok: "Emin ctx \<le> Emax ctx"
    and x: "dec_value (Finite s1 c1 e1) = Some x"
    and y: "dec_value (Finite s2 c2 e2) = Some y"
    and c2: "c2 \<noteq> 0"
    and rep: "x / y = of_int M * 10 powi j"
    and m: "\<bar>M\<bar> < 10 ^ prec ctx"
    and j: "Etiny ctx \<le> j"
    and top: "\<bar>x / y\<bar> < 10 powi (Emax ctx + 1)"
  shows "\<exists>r. Decimal_truediv ctx (Finite s1 c1 e1) (Finite s2 c2 e2) = Inr r
             \<and> dec_value r = Some (x / y)"
proof -
  have "\<exists>c e. Decimal_truediv ctx (Finite s1 c1 e1) (Finite s2 c2 e2)
                 = Decimal_fix ctx (Finite (s1 \<noteq> s2) c e)
             \<and> dec_value (Finite (s1 \<noteq> s2) c e) = Some (x / y)"
  proof (cases "c1 = 0")
    case True
    with x have "x = 0" by simp
    with True c2 have "Decimal_truediv ctx (Finite s1 c1 e1) (Finite s2 c2 e2)
                 = Decimal_fix ctx (Finite (s1 \<noteq> s2) 0 (e1 - e2))
             \<and> dec_value (Finite (s1 \<noteq> s2) 0 (e1 - e2)) = Some (x / y)"
      by (simp add: Decimal_truediv.simps)
    then show ?thesis by blast
  next
    case False
    then have c1: "0 < c1" by simp
    from c2 have c2': "0 < c2" by simp
    define m where "m = nat \<bar>M\<bar>"
    define t where "t = j - e1 + e2"
    define shift where "shift = int (ndigits c2) - int (ndigits c1) + int (prec ctx) + 1"
    define C where "C = m * 10 ^ nat (t + shift)"
    define sg :: rat where "sg = (if s1 \<noteq> s2 then - 1 else 1)"
    have mlt: "m < 10 ^ prec ctx"
      using m by (simp add: m_def nat_less_iff)
    have xy: "x / y = sg * (of_nat c1 * 10 powi e1 / (of_nat c2 * 10 powi e2))"
      using x y by (auto simp: sg_def)
    have sgabs: "\<bar>sg\<bar> = 1" "sg * sg = 1"
      by (simp_all add: sg_def)
    have absq: "\<bar>x / y\<bar> = of_nat c1 * 10 powi e1 / (of_nat c2 * 10 powi e2)"
      unfolding xy by (simp add: abs_mult sgabs)
    from rep have absq': "\<bar>x / y\<bar> = of_nat m * 10 powi j"
      by (simp add: abs_mult m_def)
    have p2: "(10::rat) powi e2 \<noteq> 0" and p1: "(10::rat) powi e1 \<noteq> 0"
      by simp_all
    from absq absq' have quot: "of_nat c1 * 10 powi e1 / (of_nat c2 * 10 powi e2)
        = of_nat m * (10::rat) powi j"
      by (simp only:)
    have nz: "of_nat c2 * (10::rat) powi e2 \<noteq> 0"
      using c2' by simp
    have "of_nat c1 * (10::rat) powi e1 = of_nat m * 10 powi j * (of_nat c2 * 10 powi e2)"
      using nz quot by (rule divide_eq_imp_eq_mult)
    then have "of_nat c1 * (10::rat) powi e1 * 10 powi (- e1)
        = of_nat m * of_nat c2 * (10 powi j * 10 powi e2 * 10 powi (- e1))"
      by (simp add: mult_ac)
    moreover have "(10::rat) powi e1 * 10 powi (- e1) = 1"
      by (subst power_int_add [symmetric]) simp_all
    moreover have "(10::rat) powi j * 10 powi e2 * 10 powi (- e1) = 10 powi t"
      unfolding t_def by (simp add: power_int_add power_int_diff power_int_minus field_simps)
    ultimately have rep': "of_nat c1 = of_nat m * of_nat c2 * (10::rat) powi t"
      by (simp add: mult.assoc)
    note qc = quotient_coefficient [OF c1 c2' rep' mlt shift_def]
    have val: "of_nat C * (10::rat) powi (e1 - e2 - shift) = \<bar>x / y\<bar>"
    proof -
      have "(of_nat C :: rat) = of_nat m * 10 powi (t + shift)"
        using qc(1) by (simp add: C_def power_int_def)
      then have "of_nat C * (10::rat) powi (e1 - e2 - shift)
          = of_nat m * (10 powi (t + shift) * 10 powi (e1 - e2 - shift))"
        by simp
      also have "(10::rat) powi (t + shift) * 10 powi (e1 - e2 - shift)
          = 10 powi ((t + shift) + (e1 - e2 - shift))"
        by (rule power_int_add [symmetric]) simp
      also have "(t + shift) + (e1 - e2 - shift) = j"
        by (simp add: t_def)
      finally show ?thesis using absq' by simp
    qed
    define c' where "c' = fst (strip_zeros C (e1 - e2 - shift) (e1 - e2))"
    define e' where "e' = snd (strip_zeros C (e1 - e2 - shift) (e1 - e2))"
    have val': "of_nat c' * (10::rat) powi e' = \<bar>x / y\<bar>"
      unfolding c'_def e'_def using strip_zeros_value [of C "e1 - e2 - shift" "e1 - e2"] val
      by simp
    have "x / y = sg * \<bar>x / y\<bar>"
      by (subst absq, rule xy)
    with val' have dval: "dec_value (Finite (s1 \<noteq> s2) c' e') = Some (x / y)"
      by (simp add: sg_def mult.assoc)
    have run: "Decimal_truediv ctx (Finite s1 c1 e1) (Finite s2 c2 e2)
        = Decimal_fix ctx (Finite (s1 \<noteq> s2) c' e')"
    proof (cases "0 \<le> shift")
      case True
      from qc(2) [OF True] have nd: "c1 * 10 ^ nat shift = C * c2"
        by (simp add: C_def)
      then have "(c1 * 10 ^ nat shift) div c2 = C" "(c1 * 10 ^ nat shift) mod c2 = 0"
        using c2' by simp_all
      with True c1 c2' show ?thesis
        unfolding c'_def e'_def shift_def
        by (simp add: Decimal_truediv.simps Let_def)
    next
      case False
      then have neg: "shift < 0" by simp
      from qc(3) [OF neg] have nd: "c1 = C * (c2 * 10 ^ nat (- shift))"
        by (simp add: C_def)
      have "0 < c2 * 10 ^ nat (- shift)"
        using c2' by simp
      with nd have "c1 div (c2 * 10 ^ nat (- shift)) = C" "c1 mod (c2 * 10 ^ nat (- shift)) = 0"
        by simp_all
      with False c1 c2' show ?thesis
        unfolding c'_def e'_def shift_def
        by (simp add: Decimal_truediv.simps Let_def)
    qed
    from run dval show ?thesis by blast
  qed
  then obtain c e where run: "Decimal_truediv ctx (Finite s1 c1 e1) (Finite s2 c2 e2)
                 = Decimal_fix ctx (Finite (s1 \<noteq> s2) c e)"
    and dval: "dec_value (Finite (s1 \<noteq> s2) c e) = Some (x / y)"
    by blast
  from fix_value_exact [OF ctxok dval rep m j top] run show ?thesis
    by simp
qed

section \<open>Decimal: sums and differences\<close>

lemma no_shortcut:
  assumes oc: "0 < oc" and tc: "0 < tc"
    and S: "S = tc * 10 ^ d + oc \<or> S + oc = tc * 10 ^ d \<or> S + tc * 10 ^ d = oc"
    and rep: "S = m * 10 ^ q \<or> m = S * 10 ^ q"
    and m: "m < 10 ^ p"
    and d1: "ndigits oc + 1 \<le> d"
    and d2: "ndigits oc + p + 2 \<le> ndigits tc + d"
  shows False
proof -
  define ol where "ol = ndigits oc"
  define tl where "tl = ndigits tc"
  define P :: nat where "P = 10 ^ (tl + d - 2)"
  define T where "T = tc * 10 ^ d"
  have olpos: "0 < ol" and tlpos: "0 < tl"
    unfolding ol_def tl_def by (rule ndigits_pos)+
  have oc_lt: "oc < 10 ^ ol"
    unfolding ol_def by (rule ndigits_upper)
  have tc_ge: "10 ^ (tl - 1) \<le> tc"
    unfolding tl_def using tc by (rule ndigits_lower)
  from d1 have d1': "ol + 1 \<le> d" by (simp add: ol_def)
  from d2 have d2': "ol + p + 2 \<le> tl + d" by (simp add: ol_def tl_def)
  have "(10::nat) ^ (tl - 1) * 10 ^ d \<le> T"
    unfolding T_def using tc_ge by simp
  moreover have "(10::nat) ^ (tl - 1) * 10 ^ d = 10 * P"
  proof -
    have "tl - 1 + d = Suc (tl + d - 2)" using tlpos d1' by simp
    then have "(10::nat) ^ (tl - 1 + d) = 10 * 10 ^ (tl + d - 2)" by simp
    then show ?thesis by (simp add: power_add P_def)
  qed
  ultimately have T_ge: "10 * P \<le> T" by simp
  have "(10::nat) ^ ol \<le> 10 ^ (tl + d - 2)"
    using d1' tlpos by (intro pow10_mono_nat) simp
  with oc_lt have oc_P: "oc < P" unfolding P_def by (rule order_less_le_trans)
  with T_ge have "oc < T" by simp
  with S have S': "S = T + oc \<or> S + oc = T"
    by (auto simp: T_def)
  with T_ge oc_P have S_ge: "P \<le> S" by auto
  have Ppos: "0 < P" by (simp add: P_def)
  have nodvd: "\<not> 10 ^ ol dvd S"
  proof
    assume dv: "10 ^ ol dvd S"
    have "(10::nat) ^ ol dvd 10 ^ d"
      using d1' by (intro le_imp_power_dvd) simp
    then have dT: "10 ^ ol dvd T" by (simp add: T_def)
    from S' have "10 ^ ol dvd oc"
    proof
      assume "S = T + oc"
      with dv dT show ?thesis by (simp add: dvd_add_right_iff)
    next
      assume "S + oc = T"
      with dT have "10 ^ ol dvd S + oc" by simp
      with dv show ?thesis by (simp add: dvd_add_right_iff)
    qed
    with oc have "10 ^ ol \<le> oc" by (auto dest: dvd_imp_le)
    with oc_lt show False by simp
  qed
  from rep show False
  proof
    assume "m = S * 10 ^ q"
    then have "S \<le> m" by simp
    moreover have "(10::nat) ^ p \<le> 10 ^ (tl + d - 2)"
      using d2' olpos by (intro pow10_mono_nat) simp
    ultimately show False using S_ge m unfolding P_def by linarith
  next
    assume Seq: "S = m * 10 ^ q"
    have "q < ol"
    proof (rule ccontr)
      assume "\<not> q < ol"
      then have "(10::nat) ^ ol dvd 10 ^ q"
        by (intro le_imp_power_dvd) simp
      with Seq have "10 ^ ol dvd S" by (metis dvd_mult)
      with nodvd show False ..
    qed
    have "S < 10 ^ p * 10 ^ q"
      unfolding Seq using m by simp
    also have "\<dots> = 10 ^ (p + q)" by (simp add: power_add)
    also have "\<dots> \<le> 10 ^ (tl + d - 2)"
      using d2' \<open>q < ol\<close> by (intro pow10_mono_nat) simp
    finally show False using S_ge unfolding P_def by linarith
  qed
qed

lemma aligned_value:
  "E \<le> e \<Longrightarrow> of_nat (c * 10 ^ nat (e - E)) * (10::rat) powi E = of_nat c * 10 powi e"
  by (simp add: pow10_split [of E e])

lemma add_aligned:
  assumes nz: "c1 \<noteq> 0" "c2 \<noteq> 0"
    and norm: "normalize_ops (c1, e1) (c2, e2) (prec ctx) = ((A, E), (B, E))"
    and E: "min e1 e2 = E"
    and x: "x = (if s1 then - 1 else 1) * of_nat A * 10 powi E"
    and y: "y = (if s2 then - 1 else 1) * of_nat B * 10 powi E"
  shows "\<exists>s c. Decimal_add ctx (Finite s1 c1 e1) (Finite s2 c2 e2) = Decimal_fix ctx (Finite s c E)
               \<and> dec_value (Finite s c E) = Some (x + y)"
proof -
  consider (same) "s1 = s2" | (eq) "s1 \<noteq> s2" "A = B" | (lt) "s1 \<noteq> s2" "A < B"
    | (gt) "s1 \<noteq> s2" "B < A"
    by fastforce
  then show ?thesis
  proof cases
    case same
    have "Decimal_add ctx (Finite s1 c1 e1) (Finite s2 c2 e2)
        = Decimal_fix ctx (Finite s1 (A + B) E)"
      using nz norm E same by (simp add: Decimal_add.simps Let_def)
    moreover have "dec_value (Finite s1 (A + B) E) = Some (x + y)"
      using same x y by (simp add: algebra_simps)
    ultimately show ?thesis by blast
  next
    case eq
    have "Decimal_add ctx (Finite s1 c1 e1) (Finite s2 c2 e2)
        = Decimal_fix ctx (Finite False 0 E)"
      using nz norm E eq by (simp add: Decimal_add.simps Let_def)
    moreover have "dec_value (Finite False 0 E) = Some (x + y)"
      using eq x y by auto
    ultimately show ?thesis by blast
  next
    case lt
    have "Decimal_add ctx (Finite s1 c1 e1) (Finite s2 c2 e2)
        = Decimal_fix ctx (Finite s2 (B - A) E)"
      using nz norm E lt by (simp add: Decimal_add.simps Let_def)
    moreover have "dec_value (Finite s2 (B - A) E) = Some (x + y)"
      using lt x y by (auto simp: of_nat_diff algebra_simps)
    ultimately show ?thesis by blast
  next
    case gt
    have "Decimal_add ctx (Finite s1 c1 e1) (Finite s2 c2 e2)
        = Decimal_fix ctx (Finite s1 (A - B) E)"
      using nz norm E gt by (simp add: Decimal_add.simps Let_def)
    moreover have "dec_value (Finite s1 (A - B) E) = Some (x + y)"
      using gt x y by (auto simp: of_nat_diff algebra_simps)
    ultimately show ?thesis by blast
  qed
qed

lemma sum_magnitude:
  fixes A B :: nat and s1 s2 :: bool
  defines "S \<equiv> nat \<bar>(if s1 then - 1 else 1) * int A + (if s2 then - 1 else 1) * int B\<bar>"
  shows "S = A + B \<or> S + B = A \<or> S + A = B"
    and "\<bar>(if s1 then - 1 else 1) * of_nat A * 10 powi E
          + (if s2 then - 1 else 1) * of_nat B * (10::rat) powi E\<bar> = of_nat S * 10 powi E"
proof -
  show "S = A + B \<or> S + B = A \<or> S + A = B"
    unfolding S_def by (cases s1; cases s2) auto
  have "(if s1 then - 1 else 1) * of_nat A * 10 powi E
          + (if s2 then - 1 else 1) * of_nat B * (10::rat) powi E
      = of_int ((if s1 then - 1 else 1) * int A + (if s2 then - 1 else 1) * int B) * 10 powi E"
    by (cases s1; cases s2) (simp_all add: algebra_simps)
  also have "\<bar>\<dots>\<bar> = of_int \<bar>(if s1 then - 1 else 1) * int A + (if s2 then - 1 else 1) * int B\<bar>
      * 10 powi E"
    by (simp only: abs_mult of_int_abs) simp
  also have "\<dots> = of_nat S * 10 powi E"
    unfolding S_def by simp
  finally show "\<bar>(if s1 then - 1 else 1) * of_nat A * 10 powi E
          + (if s2 then - 1 else 1) * of_nat B * (10::rat) powi E\<bar> = of_nat S * 10 powi E" .
qed

lemma normalize_ops_exact:
  assumes c1: "0 < c1" and c2: "0 < c2"
    and S: "S = c1 * 10 ^ nat (e1 - min e1 e2) + c2 * 10 ^ nat (e2 - min e1 e2)
          \<or> S + c2 * 10 ^ nat (e2 - min e1 e2) = c1 * 10 ^ nat (e1 - min e1 e2)
          \<or> S + c1 * 10 ^ nat (e1 - min e1 e2) = c2 * 10 ^ nat (e2 - min e1 e2)"
    and rep: "S = m * 10 ^ q \<or> m = S * 10 ^ q"
    and m: "m < 10 ^ p"
  shows "normalize_ops (c1, e1) (c2, e2) p
           = ((c1 * 10 ^ nat (e1 - min e1 e2), min e1 e2),
              (c2 * 10 ^ nat (e2 - min e1 e2), min e1 e2))"
proof (cases "e1 < e2")
  case True
  then have me: "min e1 e2 = e1" by simp
  have ns: "\<not> int (ndigits c1) + e1 - 1 < e2 + min (- 1) (int (ndigits c2) - int p - 2)"
  proof
    assume sc: "int (ndigits c1) + e1 - 1 < e2 + min (- 1) (int (ndigits c2) - int p - 2)"
    define d where "d = nat (e2 - e1)"
    from True have d: "int d = e2 - e1" by (simp add: d_def)
    from sc d have d1: "ndigits c1 + 1 \<le> d" by simp
    from sc d have d2: "ndigits c1 + p + 2 \<le> ndigits c2 + d" by simp
    from S have S': "S = c2 * 10 ^ d + c1 \<or> S + c1 = c2 * 10 ^ d \<or> S + c2 * 10 ^ d = c1"
      unfolding me d_def by auto
    from no_shortcut [OF c1 c2 S' rep m d1 d2] show False .
  qed
  from me True ns show ?thesis
    by (simp add: normalize_ops_def Let_def)
next
  case False
  then have me: "min e1 e2 = e2" by simp
  have ns: "\<not> int (ndigits c2) + e2 - 1 < e1 + min (- 1) (int (ndigits c1) - int p - 2)"
  proof
    assume sc: "int (ndigits c2) + e2 - 1 < e1 + min (- 1) (int (ndigits c1) - int p - 2)"
    define d where "d = nat (e1 - e2)"
    from False have d: "int d = e1 - e2" by (simp add: d_def)
    from sc d have d1: "ndigits c2 + 1 \<le> d" by simp
    from sc d have d2: "ndigits c2 + p + 2 \<le> ndigits c1 + d" by simp
    from S have S': "S = c1 * 10 ^ d + c2 \<or> S + c2 = c1 * 10 ^ d \<or> S + c1 * 10 ^ d = c2"
      unfolding me d_def by auto
    from no_shortcut [OF c2 c1 S' rep m d1 d2] show False .
  qed
  from me False ns show ?thesis
    by (simp add: normalize_ops_def Let_def)
qed

lemma Decimal_add_exact:
  assumes ctxok: "Emin ctx \<le> Emax ctx"
    and x: "dec_value (Finite s1 c1 e1) = Some x"
    and y: "dec_value (Finite s2 c2 e2) = Some y"
    and rep: "x + y = of_int M * 10 powi j"
    and m: "\<bar>M\<bar> < 10 ^ prec ctx"
    and j: "Etiny ctx \<le> j"
    and top: "\<bar>x + y\<bar> < 10 powi (Emax ctx + 1)"
  shows "\<exists>r. Decimal_add ctx (Finite s1 c1 e1) (Finite s2 c2 e2) = Inr r
             \<and> dec_value r = Some (x + y)"
proof -
  define E where "E = min e1 e2"
  have "\<exists>s c e. Decimal_add ctx (Finite s1 c1 e1) (Finite s2 c2 e2)
                 = Decimal_fix ctx (Finite s c e)
             \<and> dec_value (Finite s c e) = Some (x + y)"
  proof -
    consider (zz) "c1 = 0" "c2 = 0" | (zn) "c1 = 0" "c2 \<noteq> 0" | (nz) "c1 \<noteq> 0" "c2 = 0"
      | (nn) "c1 \<noteq> 0" "c2 \<noteq> 0"
      by blast
    then show ?thesis
    proof cases
      case zz
      have "Decimal_add ctx (Finite s1 c1 e1) (Finite s2 c2 e2)
          = Decimal_fix ctx (Finite (s1 \<and> s2) 0 E)"
        using zz by (simp add: Decimal_add.simps Let_def E_def)
      moreover have "dec_value (Finite (s1 \<and> s2) 0 E) = Some (x + y)"
        using zz x y by auto
      ultimately show ?thesis by blast
    next
      case zn
      define ex where "ex = max E (e2 - int (prec ctx) - 1)"
      have le: "ex \<le> e2" by (simp add: ex_def E_def)
      have "Decimal_add ctx (Finite s1 c1 e1) (Finite s2 c2 e2)
          = Decimal_fix ctx (Finite s2 (c2 * 10 ^ nat (e2 - ex)) ex)"
        using zn le by (simp add: Decimal_add.simps rescale.simps Let_def E_def ex_def)
      moreover have "dec_value (Finite s2 (c2 * 10 ^ nat (e2 - ex)) ex) = Some (x + y)"
        using zn x y aligned_value [OF le, of c2] by (auto simp: mult.assoc)
      ultimately show ?thesis by blast
    next
      case nz
      define ex where "ex = max E (e1 - int (prec ctx) - 1)"
      have le: "ex \<le> e1" by (simp add: ex_def E_def)
      have "Decimal_add ctx (Finite s1 c1 e1) (Finite s2 c2 e2)
          = Decimal_fix ctx (Finite s1 (c1 * 10 ^ nat (e1 - ex)) ex)"
        using nz le by (simp add: Decimal_add.simps rescale.simps Let_def E_def ex_def)
      moreover have "dec_value (Finite s1 (c1 * 10 ^ nat (e1 - ex)) ex) = Some (x + y)"
        using nz x y aligned_value [OF le, of c1] by (auto simp: mult.assoc)
      ultimately show ?thesis by blast
    next
      case nn
      define A where "A = c1 * 10 ^ nat (e1 - E)"
      define B where "B = c2 * 10 ^ nat (e2 - E)"
      define S where "S = nat \<bar>(if s1 then - 1 else 1) * int A + (if s2 then - 1 else 1) * int B\<bar>"
      define mm where "mm = nat \<bar>M\<bar>"
      have E1: "E \<le> e1" and E2: "E \<le> e2" by (simp_all add: E_def)
      have xA: "x = (if s1 then - 1 else 1) * of_nat A * 10 powi E"
        using x aligned_value [OF E1, of c1] by (auto simp: A_def mult.assoc)
      have yB: "y = (if s2 then - 1 else 1) * of_nat B * 10 powi E"
        using y aligned_value [OF E2, of c2] by (auto simp: B_def mult.assoc)
      have Srel: "S = A + B \<or> S + B = A \<or> S + A = B"
        unfolding S_def by (rule sum_magnitude(1))
      have "\<bar>x + y\<bar> = of_nat S * 10 powi E"
        unfolding xA yB S_def by (rule sum_magnitude(2))
      moreover from rep have "\<bar>x + y\<bar> = of_nat mm * 10 powi j"
        by (simp add: abs_mult mm_def)
      ultimately have Srep: "of_nat S * 10 powi E = of_nat mm * (10::rat) powi j"
        by simp
      have mlt: "mm < 10 ^ prec ctx"
        using m by (simp add: mm_def nat_less_iff)
      have "\<exists>q. S = mm * 10 ^ q \<or> mm = S * 10 ^ q"
      proof (cases "E \<le> j")
        case True
        with Srep have "S = mm * 10 ^ nat (j - E)" by (rule scaled_eq_ge)
        then show ?thesis by blast
      next
        case False
        then have "j \<le> E" by simp
        with Srep have "mm = S * 10 ^ nat (E - j)" by (rule scaled_eq_le)
        then show ?thesis by blast
      qed
      then obtain q where q: "S = mm * 10 ^ q \<or> mm = S * 10 ^ q" ..
      from nn have p1: "0 < c1" and p2: "0 < c2" by simp_all
      from normalize_ops_exact [OF p1 p2 Srel [unfolded A_def B_def E_def] q mlt]
      have norm: "normalize_ops (c1, e1) (c2, e2) (prec ctx) = ((A, E), (B, E))"
        by (simp add: A_def B_def E_def)
      from add_aligned [OF nn norm E_def [symmetric] xA yB] show ?thesis
        by blast
    qed
  qed
  then obtain s c e where run: "Decimal_add ctx (Finite s1 c1 e1) (Finite s2 c2 e2)
                 = Decimal_fix ctx (Finite s c e)"
    and dval: "dec_value (Finite s c e) = Some (x + y)"
    by blast
  from fix_value_exact [OF ctxok dval rep m j top] run show ?thesis
    by simp
qed

lemma Decimal_sub_exact:
  assumes ctxok: "Emin ctx \<le> Emax ctx"
    and x: "dec_value (Finite s1 c1 e1) = Some x"
    and y: "dec_value (Finite s2 c2 e2) = Some y"
    and rep: "x - y = of_int M * 10 powi j"
    and m: "\<bar>M\<bar> < 10 ^ prec ctx"
    and j: "Etiny ctx \<le> j"
    and top: "\<bar>x - y\<bar> < 10 powi (Emax ctx + 1)"
  shows "\<exists>r. Decimal_sub ctx (Finite s1 c1 e1) (Finite s2 c2 e2) = Inr r
             \<and> dec_value r = Some (x - y)"
proof -
  have run: "Decimal_sub ctx (Finite s1 c1 e1) (Finite s2 c2 e2)
      = Decimal_add ctx (Finite s1 c1 e1) (Finite (\<not> s2) c2 e2)"
    by (simp add: Decimal_sub_def)
  from y have y': "dec_value (Finite (\<not> s2) c2 e2) = Some (- y)"
    by auto
  from rep have rep': "x + (- y) = of_int M * 10 powi j" by simp
  from top have top': "\<bar>x + (- y)\<bar> < 10 powi (Emax ctx + 1)" by simp
  from Decimal_add_exact [OF ctxok x y' rep' m j top'] run show ?thesis
    by simp
qed

lemma Decimal_mul_exact:
  assumes ctxok: "Emin ctx \<le> Emax ctx"
    and x: "dec_value (Finite s1 c1 e1) = Some x"
    and y: "dec_value (Finite s2 c2 e2) = Some y"
    and rep: "x * y = of_int M * 10 powi j"
    and m: "\<bar>M\<bar> < 10 ^ prec ctx"
    and j: "Etiny ctx \<le> j"
    and top: "\<bar>x * y\<bar> < 10 powi (Emax ctx + 1)"
  shows "\<exists>r. Decimal_mul ctx (Finite s1 c1 e1) (Finite s2 c2 e2) = Inr r
             \<and> dec_value r = Some (x * y)"
  using fix_value_exact [OF ctxok dec_value_product [OF x y] rep m j top]
  by (simp add: Decimal_mul_finite)

lemma dec_value_Some_Finite:
  "dec_value a = Some x \<Longrightarrow> \<exists>s c e. a = Finite s c e"
  by (cases a) simp_all

section \<open>Decimal: the exceptions an operation can raise\<close>

lemma Decimal_fix_no_validation: "Decimal_fix ctx d \<noteq> Inl (ValidationError msg)"
  by (cases d) (simp_all add: Decimal_fix.simps Let_def)

lemma Decimal_add_no_validation: "Decimal_add ctx a b \<noteq> Inl (ValidationError msg)"
  by (cases a; cases b)
    (simp_all add: Decimal_add.simps Let_def Decimal_fix_no_validation)

lemma Decimal_sub_no_validation: "Decimal_sub ctx a b \<noteq> Inl (ValidationError msg)"
  by (cases a; cases b)
    (simp_all add: Decimal_sub_def Decimal_add_no_validation)

lemma Decimal_mul_no_validation: "Decimal_mul ctx a b \<noteq> Inl (ValidationError msg)"
  by (cases a; cases b)
    (simp_all add: Decimal_mul.simps Let_def Decimal_fix_no_validation)

lemma Decimal_eq_zero_iszero: "iszero d \<Longrightarrow> Decimal_eq_zero ctx d = Inr True"
  by (cases d) (simp_all add: Decimal_eq_zero_def)

lemma Division_execute_nonzero:
  "\<not> iszero d \<Longrightarrow> Division_execute (Decimal ctx) c d = Decimal_truediv ctx c d"
  by (cases d; cases c)
    (simp_all add: Division_execute_def Division_validate_operands_def
      Operation_validate_operands_def Decimal_def Decimal_eq_zero_def Decimal_truediv.simps)

lemma Division_execute_zero:
  "py_eq_zero T b = Inr True \<Longrightarrow>
   Division_execute T a b = Inl (ValidationError ''Division by zero is not allowed'')"
  by (simp add: Division_execute_def Division_validate_operands_def
      Operation_validate_operands_def)

section \<open>Decimal: evaluation on numerals\<close>

lemma ndigits_numeral:
  "ndigits (numeral k) = (if numeral k < (10::nat) then 1 else Suc (ndigits (numeral k div 10)))"
  by (rule ndigits.simps)

lemma ndigits_small: "ndigits 0 = 1" "ndigits 1 = 1" "ndigits (Suc 0) = 1"
  by (simp_all add: ndigits.simps)

lemma strip_zeros_numeral:
  "strip_zeros (numeral k) e i =
     (if e < i \<and> numeral k mod 10 = (0::nat)
      then strip_zeros (numeral k div 10) (e + 1) i else (numeral k, e))"
  by (rule strip_zeros.simps)

lemma strip_zeros_small: "strip_zeros (Suc 0) e i = (Suc 0, e)" "strip_zeros 1 e i = (1, e)"
  by (simp_all add: strip_zeros.simps)

lemmas decimal_eval =
  Decimal_def Addition_execute_def Subtraction_execute_def Multiplication_execute_def
  Division_execute_def Division_validate_operands_def Operation_validate_operands_def
  divide_fn_def add_def subtract_def multiply_def
  Decimal_add.simps Decimal_sub_def Decimal_mul.simps Decimal_truediv.simps Decimal_eq_zero_def
  Decimal_fix.simps rescale.simps normalize_ops_def round_half_even_def
  DefaultContext_def Etiny_def Etop_def Let_def ndigits_numeral ndigits_small
  strip_zeros_numeral strip_zeros_small

section \<open>Claims about the factory\<close>

text \<open>
  Claim C2, as stated, fails.  \<open>Partial\<close> inherits from \<^verbatim>\<open>Operation\<close> and
  implements nothing: its constructor produces no instance at all, so it does not conform to
  the capability set.  Yet \<^verbatim>\<open>register_operation("bad", Partial)\<close> succeeds, the name
  \<^verbatim>\<open>bad\<close>, unknown before, is now in the registry, and the rejection comes at use
  time, as the \<^verbatim>\<open>TypeError\<close> of \<^verbatim>\<open>create_operation("bad")\<close>.
\<close>

theorem C2_counterexample:
  "\<not> spec_conforms (ClassObj Partial)
   \<and> operations OperationFactory ''bad'' = None
   \<and> fst (register_operation OperationFactory ''bad'' (ClassObj Partial)) = Inr ()
   \<and> operations (snd (register_operation OperationFactory ''bad'' (ClassObj Partial))) ''bad''
       = Some Partial
   \<and> fst (create_operation
            (snd (register_operation OperationFactory ''bad'' (ClassObj Partial))) ''bad'')
       = Inl (TypeError ''Can't instantiate abstract class Partial'')"
  by (simp add: spec_conforms_def register_operation_def issubclass_def create_operation_def
      instantiate_def lower_examples still_abstract_def ordinary_def Partial_def Operation_def
      ABC_def OperationFactory_def)

text \<open>
  Claim C2, amended.  For every argument for which \<^verbatim>\<open>issubclass(x, Operation)\<close> does
  not return true, \<^verbatim>\<open>register_operation\<close> raises at the registration call itself:
  the exception of \<^verbatim>\<open>issubclass\<close> when that raises, which for an argument that is
  not a class is its \<^verbatim>\<open>TypeError\<close>, and the \<^verbatim>\<open>TypeError\<close> with message
  \<^verbatim>\<open>Operation class must inherit from Operation\<close> when it returns false.  The registry
  is left as it was; a name that had no entry still has none, so
  \<^verbatim>\<open>create_operation\<close> on it still raises the unknown-operation error.
\<close>

theorem C2_rejected_registration:
  assumes "issubclass x Operation \<noteq> Inr True"
  shows "fst (register_operation f name x)
           = (case issubclass x Operation of
                Inl e \<Rightarrow> Inl e
              | Inr b \<Rightarrow> Inl (TypeError ''Operation class must inherit from Operation''))
       \<and> (\<not> is_class x \<longrightarrow>
            fst (register_operation f name x)
              = Inl (TypeError ''issubclass() arg 1 must be a class''))
       \<and> snd (register_operation f name x) = f
       \<and> (operations f (lower name) = None \<longrightarrow>
            fst (create_operation (snd (register_operation f name x)) name)
              = Inl (ValueError (''Unknown operation: '' @ name)))"
proof -
  note r = register_operation_rejects [OF assms, of f name]
  have a: "\<not> is_class x \<longrightarrow>
      fst (register_operation f name x) = Inl (TypeError ''issubclass() arg 1 must be a class'')"
    using r not_class_issubclass [of x Operation] by simp
  have b: "operations f (lower name) = None \<longrightarrow>
      fst (create_operation (snd (register_operation f name x)) name)
        = Inl (ValueError (''Unknown operation: '' @ name))"
    using r by (simp add: create_operation_def)
  from r a b show ?thesis by simp
qed

theorem C2_witness:
  "issubclass (ClassObj Plain) Operation = Inr False
   \<and> fst (register_operation OperationFactory ''bad'' (ClassObj Plain))
       = Inl (TypeError ''Operation class must inherit from Operation'')
   \<and> snd (register_operation OperationFactory ''bad'' (ClassObj Plain)) = OperationFactory
   \<and> operations OperationFactory (lower ''bad'') = None
   \<and> fst (create_operation
            (snd (register_operation OperationFactory ''bad'' (ClassObj Plain))) ''bad'')
       = Inl (ValueError ''Unknown operation: bad'')
   \<and> \<not> is_class (IntObj 5)
   \<and> fst (register_operation OperationFactory ''bad'' (IntObj 5))
       = Inl (TypeError ''issubclass() arg 1 must be a class'')
   \<and> snd (register_operation OperationFactory ''bad'' (IntObj 5)) = OperationFactory"
proof -
  have h: "issubclass (ClassObj Plain) Operation = Inr False"
    by (simp add: issubclass_def Plain_def Operation_def ordinary_def)
  then have h': "issubclass (ClassObj Plain) Operation \<noteq> Inr True"
    by simp
  have n: "operations OperationFactory (lower ''bad'') = None"
    by (simp add: OperationFactory_def lower_examples)
  have c: "\<not> is_class (IntObj 5)"
    by (simp add: is_class_def)
  have i: "issubclass (IntObj 5) Operation \<noteq> Inr True"
    by (simp add: issubclass_def)
  show ?thesis
    using h n c C2_rejected_registration [OF h', of OperationFactory "''bad''"]
      C2_rejected_registration [OF i, of OperationFactory "''bad''"]
    by auto
qed

text \<open>
  Claim C3.  For every name whose lower-case form has no registry entry,
  \<^verbatim>\<open>create_operation\<close> raises a \<^verbatim>\<open>ValueError\<close> whose message is
  \<^verbatim>\<open>Unknown operation: \<close> followed by the name as it was requested, not lowered.
\<close>

theorem C3_unknown_operation_error:
  assumes "operations f (lower operation_type) = None"
  shows "fst (create_operation f operation_type)
           = Inl (ValueError (''Unknown operation: '' @ operation_type))"
  using assms by (simp add: create_operation_def)

theorem C3_witness:
  "operations OperationFactory (lower ''bogus'') = None
   \<and> fst (create_operation OperationFactory ''bogus'')
       = Inl (ValueError (''Unknown operation: '' @ ''bogus''))
   \<and> operations OperationFactory (lower ''Bogus'') = None
   \<and> fst (create_operation OperationFactory ''Bogus'')
       = Inl (ValueError (''Unknown operation: '' @ ''Bogus''))"
proof -
  have a: "operations OperationFactory (lower ''bogus'') = None"
    by (simp add: OperationFactory_def lower_def lower_char_def)
  have b: "operations OperationFactory (lower ''Bogus'') = None"
    by (simp add: OperationFactory_def lower_examples)
  show ?thesis
    using a b C3_unknown_operation_error [OF a] C3_unknown_operation_error [OF b]
    by simp
qed

text \<open>
  Claim C8.  For every name, \<^verbatim>\<open>create_operation\<close> returns the factory state it was
  given, whether it returns an instance or raises; its outcome is the unknown-operation
  error, for a name without entry and for an entry that is false as an object, or the
  exception raised when the entry is asked for its truth value, or the result of calling the
  registered class.
\<close>

theorem C8_create_operation_frame:
  "snd (create_operation f operation_type) = f
   \<and> fst (create_operation f operation_type)
       = (case operations f (lower operation_type) of
            None \<Rightarrow> Inl (ValueError (''Unknown operation: '' @ operation_type))
          | Some c \<Rightarrow>
              (case truth_value (class_traits c) of
                 Inl e \<Rightarrow> Inl e
               | Inr True \<Rightarrow> instantiate c
               | Inr False \<Rightarrow> Inl (ValueError (''Unknown operation: '' @ operation_type))))"
  by (simp add: create_operation_def split: option.splits sum.splits)

text \<open>
  Claim C9.  A class that inherits from \<^verbatim>\<open>Operation\<close> and leaves
  \<^verbatim>\<open>execute\<close> abstract passes the check of \<^verbatim>\<open>register_operation\<close>: the call
  succeeds and stores the entry.  The failure comes only from \<^verbatim>\<open>create_operation\<close>:
  when the class is constructed by \<^verbatim>\<open>object.__new__\<close> the call raises, and for a
  class that is true as an object what it raises is the \<^verbatim>\<open>TypeError\<close> of the
  construction.  \<^verbatim>\<open>Operation\<close> itself is such a class.
\<close>

theorem C9_abstract_class_registers_then_fails:
  assumes "inherits c Operation" and "still_abstract c ''execute''"
    and "constructor (class_traits c) = ObjectNew raised"
  shows "register_operation f name (ClassObj c)
           = (Inr (), f\<lparr>operations := (operations f)(lower name \<mapsto> c)\<rparr>)
       \<and> isl (fst (create_operation (snd (register_operation f name (ClassObj c))) name))
       \<and> (true_class c \<longrightarrow>
            create_operation (snd (register_operation f name (ClassObj c))) name
              = (Inl (TypeError (''Can't instantiate abstract class '' @ cname c)),
                 snd (register_operation f name (ClassObj c))))"
proof -
  from assms(1) have sub: "Operation \<in> set (mro c)"
    by (simp add: inherits_def)
  from execute_stays_abstract [OF sub assms(2)] have "abstractmethods c \<noteq> []"
    by auto
  with assms(3) have i: "instantiate c
      = Inl (TypeError (''Can't instantiate abstract class '' @ cname c))"
    by (rule instantiate_abstract)
  note r = register_operation_accepts [OF issubclass_inherits [OF assms(1)], of f name]
  have a: "isl (fst (create_operation (snd (register_operation f name (ClassObj c))) name))"
    using i by (simp add: r create_operation_def split: sum.splits)
  have b: "true_class c \<longrightarrow>
      create_operation (snd (register_operation f name (ClassObj c))) name
        = (Inl (TypeError (''Can't instantiate abstract class '' @ cname c)),
           snd (register_operation f name (ClassObj c)))"
    using i by (simp add: r create_operation_def true_class_def)
  from r a b show ?thesis by simp
qed

theorem C9_witness:
  "inherits Operation Operation \<and> still_abstract Operation ''execute''
   \<and> constructor (class_traits Operation) = ObjectNew None \<and> true_class Operation
   \<and> fst (register_operation OperationFactory ''op'' (ClassObj Operation)) = Inr ()
   \<and> operations (snd (register_operation OperationFactory ''op'' (ClassObj Operation))) ''op''
       = Some Operation
   \<and> fst (create_operation
            (snd (register_operation OperationFactory ''op'' (ClassObj Operation))) ''op'')
       = Inl (TypeError ''Can't instantiate abstract class Operation'')"
proof -
  have a: "inherits Operation Operation"
    by (rule Operation_inherits_itself)
  have b: "still_abstract Operation ''execute''"
    by (simp add: still_abstract_def Operation_def)
  have c: "constructor (class_traits Operation) = ObjectNew None"
    by (simp add: Operation_def ordinary_def)
  have d: "true_class Operation"
    by (simp add: true_class_def Operation_def ordinary_def)
  have n: "cname Operation = ''Operation''"
    by (simp add: Operation_def)
  show ?thesis
    using a b c d C9_abstract_class_registers_then_fails [OF a b c, of OperationFactory "''op''"]
    by (auto simp: lower_examples n)
qed

text \<open>
  Claim C10.  For every argument that is not a class, \<^verbatim>\<open>issubclass\<close> itself raises a
  \<^verbatim>\<open>TypeError\<close> instead of returning false, so \<^verbatim>\<open>register_operation\<close> fails
  with that \<^verbatim>\<open>TypeError\<close> and the registry is as it was.
\<close>

theorem C10_non_class_argument:
  assumes "\<not> is_class x"
  shows "issubclass x Operation = Inl (TypeError ''issubclass() arg 1 must be a class'')
       \<and> register_operation f name x
           = (Inl (TypeError ''issubclass() arg 1 must be a class''), f)"
  using not_class_issubclass [OF assms, of Operation]
  by (simp add: register_operation_def)

theorem C10_witness:
  "\<not> is_class (InstanceObj Addition) \<and> \<not> is_class (StrObj ''Addition'')
   \<and> register_operation OperationFactory ''plus'' (InstanceObj Addition)
       = (Inl (TypeError ''issubclass() arg 1 must be a class''), OperationFactory)
   \<and> register_operation OperationFactory ''plus'' (StrObj ''Addition'')
       = (Inl (TypeError ''issubclass() arg 1 must be a class''), OperationFactory)"
proof -
  have a: "\<not> is_class (InstanceObj Addition)"
    by (simp add: is_class_def)
  have b: "\<not> is_class (StrObj ''Addition'')"
    by (simp add: is_class_def)
  show ?thesis
    using a b C10_non_class_argument [OF a, of OperationFactory "''plus''"]
      C10_non_class_argument [OF b, of OperationFactory "''plus''"]
    by simp
qed

text \<open>
  Claim C6, as stated, fails, whichever way conformance is read.  \<open>Falsy\<close> passes the check
  of \<^verbatim>\<open>register_operation\<close> and its constructor produces complete operations; its
  registration under \<^verbatim>\<open>mod\<close> succeeds, and \<^verbatim>\<open>create_operation("mod")\<close> then
  raises the unknown-operation error, because the class is false as an object.  Three more
  classes pass the check and are registered, and no new instance comes back:
  \<^verbatim>\<open>Operation\<close> is abstract, the \<^verbatim>\<open>__init__\<close> of \<open>Scaled\<close> raises when called
  without argument, and the \<^verbatim>\<open>__new__\<close> of \<open>Shared\<close> hands back an object made
  before.  In the other direction \<open>Duck\<close>, which has the three capabilities and does not
  inherit from \<^verbatim>\<open>Operation\<close>, is refused.
\<close>

theorem C6_counterexample:
  "issubclass (ClassObj Falsy) Operation = Inr True \<and> spec_conforms (ClassObj Falsy)
   \<and> fst (register_operation OperationFactory ''mod'' (ClassObj Falsy)) = Inr ()
   \<and> fst (create_operation
            (snd (register_operation OperationFactory ''mod'' (ClassObj Falsy))) ''mod'')
       = Inl (ValueError ''Unknown operation: mod'')
   \<and> fst (register_operation OperationFactory ''mod'' (ClassObj Operation)) = Inr ()
   \<and> fst (create_operation
            (snd (register_operation OperationFactory ''mod'' (ClassObj Operation))) ''mod'')
       = Inl (TypeError ''Can't instantiate abstract class Operation'')
   \<and> fst (register_operation OperationFactory ''mod'' (ClassObj Scaled)) = Inr ()
   \<and> fst (create_operation
            (snd (register_operation OperationFactory ''mod'' (ClassObj Scaled))) ''mod'')
       = Inl (ValueError ''a scale is required'')
   \<and> fst (register_operation OperationFactory ''mod'' (ClassObj Shared)) = Inr ()
   \<and> fst (create_operation
            (snd (register_operation OperationFactory ''mod'' (ClassObj Shared))) ''mod'')
       = Inr (OtherObj 0)
   \<and> spec_conforms (ClassObj Duck)
   \<and> fst (register_operation OperationFactory ''mod'' (ClassObj Duck))
       = Inl (TypeError ''Operation class must inherit from Operation'')"
  by (simp add: spec_conforms_def implements_def register_operation_def issubclass_def
      create_operation_def instantiate_def lower_examples still_abstract_def ordinary_def
      Falsy_def Scaled_def Shared_def Duck_def Operation_def ABC_def)

text \<open>
  Claim C6, amended.  For every name and every class for which
  \<^verbatim>\<open>issubclass(C, Operation)\<close> returns true, that is true as an object, has no
  abstract method left, is constructed by \<^verbatim>\<open>object.__new__\<close> and whose
  \<^verbatim>\<open>__init__\<close> returns when called without argument, \<^verbatim>\<open>register_operation\<close>
  succeeds and a following \<^verbatim>\<open>create_operation\<close> on the same name returns a new
  instance of that class.
\<close>

theorem C6_register_then_create:
  assumes "issubclass (ClassObj c) Operation = Inr True" and "true_class c" and "constructs c"
  shows "fst (register_operation f name (ClassObj c)) = Inr ()
       \<and> fst (create_operation (snd (register_operation f name (ClassObj c))) name)
           = Inr (InstanceObj c)"
  using instantiate_constructs [OF assms(3)] assms(2)
  by (simp add: register_operation_accepts [OF assms(1)] create_operation_def true_class_def)

theorem C6_witness:
  "issubclass (ClassObj ModVariant) Operation = Inr True
   \<and> true_class ModVariant \<and> constructs ModVariant
   \<and> fst (register_operation OperationFactory ''mod'' (ClassObj ModVariant)) = Inr ()
   \<and> fst (create_operation
            (snd (register_operation OperationFactory ''mod'' (ClassObj ModVariant))) ''mod'')
       = Inr (InstanceObj ModVariant)
   \<and> issubclass (ClassObj Registered) Operation = Inr True
   \<and> true_class Registered \<and> constructs Registered
   \<and> fst (register_operation OperationFactory ''mod'' (ClassObj Registered)) = Inr ()
   \<and> fst (create_operation
            (snd (register_operation OperationFactory ''mod'' (ClassObj Registered))) ''mod'')
       = Inr (InstanceObj Registered)"
proof -
  have a: "issubclass (ClassObj ModVariant) Operation = Inr True"
    by (rule issubclass_inherits) (rule caller_classes)
  have b: "issubclass (ClassObj Registered) Operation = Inr True"
    by (simp add: issubclass_def Registered_def Operation_def)
  show ?thesis
    using a b caller_classes(2,3,17,18)
      C6_register_then_create [OF a caller_classes(2,3), of OperationFactory "''mod''"]
      C6_register_then_create [OF b caller_classes(17,18), of OperationFactory "''mod''"]
    by simp
qed




section \<open>Claims about the arithmetic\<close>

text \<open>
  Claim C1, as stated, fails: under the default context the division of 1 by 3 returns
  0.3333333333333333333333333333, the quotient rounded to 28 digits, which is not the
  quotient.
\<close>

theorem C1_counterexample:
  "dec_value (Finite False 1 0) = Some 1
   \<and> dec_value (Finite False 3 0) = Some 3
   \<and> Division_execute (Decimal DefaultContext) (Finite False 1 0) (Finite False 3 0)
       = Inr (Finite False 3333333333333333333333333333 (- 28))
   \<and> dec_value (Finite False 3333333333333333333333333333 (- 28)) \<noteq> Some (1 / 3)"
proof -
  have "Division_execute (Decimal DefaultContext) (Finite False 1 0) (Finite False 3 0)
       = Inr (Finite False 3333333333333333333333333333 (- 28))"
    by (simp add: decimal_eval)
  then show ?thesis by (simp add: power_int_minus)
qed

text \<open>
  Claim C1, amended.  For every number type, when \<^verbatim>\<open>b == 0\<close> holds
  \<^verbatim>\<open>Division.execute\<close> raises the \<^verbatim>\<open>ValidationError\<close> with message
  \<^verbatim>\<open>Division by zero is not allowed\<close>, whatever the division itself would do: the
  check comes first.  On Decimal operands that is the case for every dividend, NaNs and
  infinities included, and every zero divisor, of either sign and any exponent.  For every
  other divisor \<^verbatim>\<open>Division.execute(a, b)\<close> is \<^verbatim>\<open>a / b\<close> as the context
  computes it, with the signals it raises; and when the operands are finite and the exact
  quotient is representable in the context, the result is that quotient exactly.
\<close>

theorem C1_division:
  "(py_eq_zero T b = Inr True \<longrightarrow>
      Division_execute T a b = Inl (ValidationError ''Division by zero is not allowed''))
   \<and> (iszero d \<longrightarrow>
      Division_execute (Decimal ctx) c d
        = Inl (ValidationError ''Division by zero is not allowed''))
   \<and> (\<not> iszero d \<longrightarrow> Division_execute (Decimal ctx) c d = Decimal_truediv ctx c d)
   \<and> (Emin ctx \<le> Emax ctx \<and> dec_value c = Some x \<and> dec_value d = Some y \<and> y \<noteq> 0
        \<and> representable ctx (x / y) m j \<longrightarrow>
      (\<exists>r. Division_execute (Decimal ctx) c d = Inr r \<and> dec_value r = Some (x / y)))"
proof -
  have exact: "\<exists>r. Division_execute (Decimal ctx) c d = Inr r \<and> dec_value r = Some (x / y)"
    if ctxok: "Emin ctx \<le> Emax ctx" and x: "dec_value c = Some x" and y: "dec_value d = Some y"
      and ynz: "y \<noteq> 0" and rep: "representable ctx (x / y) m j"
  proof -
    from x obtain s1 c1 e1 where c: "c = Finite s1 c1 e1" by (cases c) simp_all
    from y obtain s2 c2 e2 where d: "d = Finite s2 c2 e2" by (cases d) simp_all
    from y ynz d have c2: "c2 \<noteq> 0" by auto
    then have "\<not> iszero d" by (simp add: d)
    then have run: "Division_execute (Decimal ctx) c d = Decimal_truediv ctx c d"
      by (rule Division_execute_nonzero)
    note r = representableD [OF rep]
    from Decimal_truediv_exact [OF ctxok x [unfolded c] y [unfolded d] c2 r] run c d
    show ?thesis by simp
  qed
  have zero: "Division_execute (Decimal ctx) c d
        = Inl (ValidationError ''Division by zero is not allowed'')" if "iszero d"
    using Decimal_eq_zero_iszero [OF that, of ctx]
    by (intro Division_execute_zero) (simp add: Decimal_def)
  show ?thesis
  proof (intro conjI impI)
    assume "py_eq_zero T b = Inr True"
    then show "Division_execute T a b = Inl (ValidationError ''Division by zero is not allowed'')"
      by (rule Division_execute_zero)
  next
    assume "iszero d"
    then show "Division_execute (Decimal ctx) c d
        = Inl (ValidationError ''Division by zero is not allowed'')"
      by (rule zero)
  next
    assume "\<not> iszero d"
    then show "Division_execute (Decimal ctx) c d = Decimal_truediv ctx c d"
      by (rule Division_execute_nonzero)
  next
    assume "Emin ctx \<le> Emax ctx \<and> dec_value c = Some x \<and> dec_value d = Some y \<and> y \<noteq> 0
        \<and> representable ctx (x / y) m j"
    then show "\<exists>r. Division_execute (Decimal ctx) c d = Inr r \<and> dec_value r = Some (x / y)"
      using exact by blast
  qed
qed

theorem C1_witness:
  "py_eq_zero (Decimal DefaultContext) (Finite False 0 0) = Inr True
   \<and> Division_execute (Decimal DefaultContext) (Finite False 5 0) (Finite False 0 0)
       = Inl (ValidationError ''Division by zero is not allowed'')
   \<and> iszero (Finite True 0 3)
   \<and> Division_execute (Decimal DefaultContext) (SNaN False 0) (Finite True 0 3)
       = Inl (ValidationError ''Division by zero is not allowed'')
   \<and> \<not> iszero (Finite False 2 0)
   \<and> Emin DefaultContext \<le> Emax DefaultContext
   \<and> dec_value (Finite False 55 (- 1)) = Some (11 / 2)
   \<and> dec_value (Finite False 2 0) = Some 2 \<and> (2 :: rat) \<noteq> 0
   \<and> representable DefaultContext (11 / 2 / 2) 275 (- 2)
   \<and> (\<exists>r. Division_execute (Decimal DefaultContext) (Finite False 55 (- 1)) (Finite False 2 0)
            = Inr r
          \<and> dec_value r = Some (11 / 2 / 2))"
proof -
  have z: "py_eq_zero (Decimal DefaultContext) (Finite False 0 0) = Inr True"
    by (simp add: Decimal_def Decimal_eq_zero_def)
  have c: "Emin DefaultContext \<le> Emax DefaultContext"
    by (simp add: DefaultContext_def)
  have x: "dec_value (Finite False 55 (- 1)) = Some (11 / 2)"
    by (simp add: power_int_minus)
  have y: "dec_value (Finite False 2 0) = Some 2"
    by simp
  have q: "representable DefaultContext (11 / 2 / 2) 275 (- 2)"
    by (rule representableI [where k = 1])
      (simp_all add: DefaultContext_def Etiny_def power_int_minus)
  have iz: "iszero (Finite True 0 3)"
    by simp
  have nz: "\<not> iszero (Finite False 2 0)"
    by simp
  have ynz: "(2 :: rat) \<noteq> 0"
    by simp
  from z c x y q iz nz ynz
    C1_division [of "Decimal DefaultContext" "Finite False 0 0" "Finite False 5 0"
      "Finite True 0 3" DefaultContext "SNaN False 0"]
    C1_division [of "Decimal DefaultContext" "Finite False 0 0" "Finite False 5 0"
      "Finite False 2 0" DefaultContext "Finite False 55 (- 1)" "11 / 2" 2 275 "- 2"]
  show ?thesis by blast
qed

text \<open>
  Claim C5, as stated, fails: under the default context the sum of \<open>10\<^sup>2\<^sup>8\<close> and 1
  needs 29 digits and is rounded back to \<open>10\<^sup>2\<^sup>8\<close>.
\<close>

theorem C5_counterexample:
  "dec_value (Finite False 1 28) = Some (10 ^ 28)
   \<and> dec_value (Finite False 1 0) = Some 1
   \<and> Addition_execute (Decimal DefaultContext) (Finite False 1 28) (Finite False 1 0)
       = Inr (Finite False 1000000000000000000000000000 1)
   \<and> dec_value (Finite False 1000000000000000000000000000 1) = Some (10 ^ 28)
   \<and> (10 ^ 28 :: rat) \<noteq> 10 ^ 28 + 1"
proof -
  have "Addition_execute (Decimal DefaultContext) (Finite False 1 28) (Finite False 1 0)
       = Inr (Finite False 1000000000000000000000000000 1)"
    by (simp add: decimal_eval)
  then show ?thesis by simp
qed

text \<open>
  Claim C5, amended.  For all finite Decimal operands, in every context, when the exact sum
  is representable in the context \<^verbatim>\<open>Addition.execute\<close> returns it exactly, and
  likewise \<^verbatim>\<open>Subtraction.execute\<close> the exact difference and
  \<^verbatim>\<open>Multiplication.execute\<close> the exact product; operands of magnitude
  \<open>10\<^sup>1\<^sup>0\<close> are such a case.  For all operands, finite or not, none of the three raises
  a \<^verbatim>\<open>ValidationError\<close>.
\<close>

theorem C5_exact_when_representable:
  "(Emin ctx \<le> Emax ctx \<and> dec_value a = Some x \<and> dec_value b = Some y \<longrightarrow>
      (representable ctx (x + y) m j \<longrightarrow>
         (\<exists>r. Addition_execute (Decimal ctx) a b = Inr r \<and> dec_value r = Some (x + y)))
    \<and> (representable ctx (x - y) m' j' \<longrightarrow>
         (\<exists>r. Subtraction_execute (Decimal ctx) a b = Inr r \<and> dec_value r = Some (x - y)))
    \<and> (representable ctx (x * y) m'' j'' \<longrightarrow>
         (\<exists>r. Multiplication_execute (Decimal ctx) a b = Inr r \<and> dec_value r = Some (x * y))))
   \<and> Addition_execute (Decimal ctx) a b \<noteq> Inl (ValidationError msg)
   \<and> Subtraction_execute (Decimal ctx) a b \<noteq> Inl (ValidationError msg)
   \<and> Multiplication_execute (Decimal ctx) a b \<noteq> Inl (ValidationError msg)"
proof -
  have run: "Addition_execute (Decimal ctx) a b = Decimal_add ctx a b"
    "Subtraction_execute (Decimal ctx) a b = Decimal_sub ctx a b"
    "Multiplication_execute (Decimal ctx) a b = Decimal_mul ctx a b"
    by (simp_all add: Addition_execute_def Subtraction_execute_def Multiplication_execute_def
        Operation_validate_operands_def Decimal_def)
  have exact: "(representable ctx (x + y) m j \<longrightarrow>
         (\<exists>r. Addition_execute (Decimal ctx) a b = Inr r \<and> dec_value r = Some (x + y)))
    \<and> (representable ctx (x - y) m' j' \<longrightarrow>
         (\<exists>r. Subtraction_execute (Decimal ctx) a b = Inr r \<and> dec_value r = Some (x - y)))
    \<and> (representable ctx (x * y) m'' j'' \<longrightarrow>
         (\<exists>r. Multiplication_execute (Decimal ctx) a b = Inr r \<and> dec_value r = Some (x * y)))"
    if ctxok: "Emin ctx \<le> Emax ctx" and x: "dec_value a = Some x" and y: "dec_value b = Some y"
  proof -
    from x obtain s1 c1 e1 where a: "a = Finite s1 c1 e1"
      using dec_value_Some_Finite by blast
    from y obtain s2 c2 e2 where b: "b = Finite s2 c2 e2"
      using dec_value_Some_Finite by blast
    note x' = x [unfolded a] and y' = y [unfolded b]
    have p: "\<exists>r. Decimal_add ctx a b = Inr r \<and> dec_value r = Some (x + y)"
      if rep: "representable ctx (x + y) m j"
      unfolding a b using Decimal_add_exact [OF ctxok x' y' representableD [OF rep]] .
    have s: "\<exists>r. Decimal_sub ctx a b = Inr r \<and> dec_value r = Some (x - y)"
      if rep: "representable ctx (x - y) m' j'"
      unfolding a b using Decimal_sub_exact [OF ctxok x' y' representableD [OF rep]] .
    have t: "\<exists>r. Decimal_mul ctx a b = Inr r \<and> dec_value r = Some (x * y)"
      if rep: "representable ctx (x * y) m'' j''"
      unfolding a b using Decimal_mul_exact [OF ctxok x' y' representableD [OF rep]] .
    from p s t show ?thesis unfolding run by blast
  qed
  have never: "Addition_execute (Decimal ctx) a b \<noteq> Inl (ValidationError msg)"
    "Subtraction_execute (Decimal ctx) a b \<noteq> Inl (ValidationError msg)"
    "Multiplication_execute (Decimal ctx) a b \<noteq> Inl (ValidationError msg)"
    unfolding run
    by (rule Decimal_add_no_validation Decimal_sub_no_validation Decimal_mul_no_validation)+
  from exact never show ?thesis by blast
qed

theorem C5_witness:
  "Emin DefaultContext \<le> Emax DefaultContext
   \<and> dec_value (Finite False 1 10) = Some (10 ^ 10)
   \<and> dec_value (Finite False 3 9) = Some (3 * 10 ^ 9)
   \<and> representable DefaultContext (10 ^ 10 + 3 * 10 ^ 9) 13 9
   \<and> representable DefaultContext (10 ^ 10 - 3 * 10 ^ 9) 7 9
   \<and> representable DefaultContext (10 ^ 10 * (3 * 10 ^ 9)) 3 19
   \<and> (\<exists>r. Addition_execute (Decimal DefaultContext) (Finite False 1 10) (Finite False 3 9) = Inr r
          \<and> dec_value r = Some (10 ^ 10 + 3 * 10 ^ 9))
   \<and> (\<exists>r. Subtraction_execute (Decimal DefaultContext) (Finite False 1 10) (Finite False 3 9) = Inr r
          \<and> dec_value r = Some (10 ^ 10 - 3 * 10 ^ 9))
   \<and> (\<exists>r. Multiplication_execute (Decimal DefaultContext) (Finite False 1 10) (Finite False 3 9)
            = Inr r
          \<and> dec_value r = Some (10 ^ 10 * (3 * 10 ^ 9)))"
proof -
  have c: "Emin DefaultContext \<le> Emax DefaultContext"
    by (simp add: DefaultContext_def)
  have x: "dec_value (Finite False 1 10) = Some (10 ^ 10)"
    by simp
  have y: "dec_value (Finite False 3 9) = Some (3 * 10 ^ 9)"
    by simp
  have p: "representable DefaultContext (10 ^ 10 + 3 * 10 ^ 9) 13 9"
    by (rule representableI [where k = 11]) (simp_all add: DefaultContext_def Etiny_def)
  have s: "representable DefaultContext (10 ^ 10 - 3 * 10 ^ 9) 7 9"
    by (rule representableI [where k = 11]) (simp_all add: DefaultContext_def Etiny_def)
  have t: "representable DefaultContext (10 ^ 10 * (3 * 10 ^ 9)) 3 19"
    by (rule representableI [where k = 20]) (simp_all add: DefaultContext_def Etiny_def)
  from c x y p s t
    C5_exact_when_representable [of DefaultContext "Finite False 1 10" "10 ^ 10"
      "Finite False 3 9" "3 * 10 ^ 9" 13 9 7 9 3 19]
  show ?thesis by blast
qed

text \<open>
  Claim C7, as stated, fails: on a zero divisor the two division paths differ in the class
  of the exception and in its message as well.
\<close>

theorem C7_counterexample:
  "divide_fn (Decimal DefaultContext) (Finite False 5 0) (Finite False 0 0)
     = Inl (ValueError ''Cannot divide by zero!'')
   \<and> Division_execute (Decimal DefaultContext) (Finite False 5 0) (Finite False 0 0)
     = Inl (ValidationError ''Division by zero is not allowed'')
   \<and> ''Cannot divide by zero!'' \<noteq> ''Division by zero is not allowed''"
  by (simp add: divide_fn_def Division_execute_def Division_validate_operands_def
      Operation_validate_operands_def Decimal_def Decimal_eq_zero_def)

text \<open>
  Claim C7, amended.  For every number type and all operands, \<^verbatim>\<open>add\<close>,
  \<^verbatim>\<open>subtract\<close> and \<^verbatim>\<open>multiply\<close> compute what \<^verbatim>\<open>Addition.execute\<close>,
  \<^verbatim>\<open>Subtraction.execute\<close> and \<^verbatim>\<open>Multiplication.execute\<close> compute; unless
  \<^verbatim>\<open>b == 0\<close> holds, \<^verbatim>\<open>divide\<close> and \<^verbatim>\<open>Division.execute\<close> agree (an
  exception of the comparison is the same on both paths); when it holds,
  \<^verbatim>\<open>divide\<close> raises \<^verbatim>\<open>ValueError("Cannot divide by zero!")\<close> and
  \<^verbatim>\<open>Division.execute\<close> raises
  \<^verbatim>\<open>ValidationError("Division by zero is not allowed")\<close>.
\<close>

theorem C7_standalone_and_classes_agree:
  "add T a b = Addition_execute T a b
   \<and> subtract T a b = Subtraction_execute T a b
   \<and> multiply T a b = Multiplication_execute T a b
   \<and> (py_eq_zero T b \<noteq> Inr True \<longrightarrow> divide_fn T a b = Division_execute T a b)
   \<and> (py_eq_zero T b = Inr True \<longrightarrow>
        divide_fn T a b = Inl (ValueError ''Cannot divide by zero!'')
        \<and> Division_execute T a b = Inl (ValidationError ''Division by zero is not allowed''))"
  by (auto simp: add_def subtract_def multiply_def divide_fn_def Addition_execute_def
      Subtraction_execute_def Multiplication_execute_def Division_execute_def
      Division_validate_operands_def Operation_validate_operands_def split: sum.splits)

theorem C7_witness:
  "py_eq_zero (Decimal DefaultContext) (Finite False 2 0) \<noteq> Inr True
   \<and> divide_fn (Decimal DefaultContext) (Finite False 6 0) (Finite False 2 0)
       = Division_execute (Decimal DefaultContext) (Finite False 6 0) (Finite False 2 0)
   \<and> py_eq_zero (Decimal DefaultContext) (Finite False 0 0) = Inr True
   \<and> divide_fn (Decimal DefaultContext) (Finite False 6 0) (Finite False 0 0)
       = Inl (ValueError ''Cannot divide by zero!'')
   \<and> Division_execute (Decimal DefaultContext) (Finite False 6 0) (Finite False 0 0)
       = Inl (ValidationError ''Division by zero is not allowed'')"
proof -
  have n: "py_eq_zero (Decimal DefaultContext) (Finite False 2 0) \<noteq> Inr True"
    by (simp add: Decimal_def Decimal_eq_zero_def)
  have z: "py_eq_zero (Decimal DefaultContext) (Finite False 0 0) = Inr True"
    by (simp add: Decimal_def Decimal_eq_zero_def)
  from n z
    C7_standalone_and_classes_agree [of "Decimal DefaultContext" "Finite False 6 0" "Finite False 2 0"]
    C7_standalone_and_classes_agree [of "Decimal DefaultContext" "Finite False 6 0" "Finite False 0 0"]
  show ?thesis by simp
qed

end
